theory Spec2Isabelle
  imports Main
begin

section \<open>Go strings\<close>

text \<open>
  A Go \<^verbatim>\<open>string\<close> is a sequence of bytes, and so is a HOL \<^typ>\<open>string\<close>: one \<^typ>\<open>char\<close>
  per byte. The functions of package \<^verbatim>\<open>strings\<close> that \<^verbatim>\<open>output.go\<close> calls are written out
  here for the arguments the file gives them.
\<close>

abbreviation HT :: char where "HT \<equiv> CHR 0x09"
abbreviation LF :: char where "LF \<equiv> CHR 0x0A"
abbreviation FF :: char where "FF \<equiv> CHR 0x0C"
abbreviation CR :: char where "CR \<equiv> CHR 0x0D"
abbreviation ESC :: char where "ESC \<equiv> CHR 0x1B"
abbreviation DQ :: char where "DQ \<equiv> CHR 0x22"
abbreviation BSL :: char where "BSL \<equiv> CHR 0x5C"

definition HasPrefix :: "string \<Rightarrow> string \<Rightarrow> bool" where
  "HasPrefix s p = (take (length p) s = p)"

text \<open>
  \<^verbatim>\<open>strings.ReplaceAll(s, old, new)\<close>: the non-overlapping occurrences of \<open>old\<close>, found from
  left to right, are replaced. Every call in the file has a non-empty \<open>old\<close>; an empty one
  (which Go matches between runes) is left alone here.
\<close>

fun ReplaceAll :: "string \<Rightarrow> string \<Rightarrow> string \<Rightarrow> string" where
  "ReplaceAll [] old new = []"
| "ReplaceAll (c # cs) old new =
     (if old \<noteq> [] \<and> HasPrefix (c # cs) old
      then new @ ReplaceAll (drop (length old - 1) cs) old new
      else c # ReplaceAll cs old new)"

definition TrimPrefix :: "string \<Rightarrow> string \<Rightarrow> string" where
  "TrimPrefix s p = (if HasPrefix s p then drop (length p) s else s)"

text \<open>
  \<^verbatim>\<open>strings.ToLower\<close> on ASCII: the letters \<open>A\<close> to \<open>Z\<close> move to \<open>a\<close> to \<open>z\<close>. The only
  caller passes a match of \<^verbatim>\<open>[\w-]+\<close>, which is ASCII.
\<close>

definition lower :: "char \<Rightarrow> char" where
  "lower c =
     (case map_of (zip ''ABCDEFGHIJKLMNOPQRSTUVWXYZ'' ''abcdefghijklmnopqrstuvwxyz'') c of
        Some l \<Rightarrow> l
      | None \<Rightarrow> c)"

definition ToLower :: "string \<Rightarrow> string" where
  "ToLower s = map lower s"

section \<open>File names of the debug store\<close>

text \<open>
  \<^verbatim>\<open>sanitizeFileName\<close>, lines 517 to 529. \<^verbatim>\<open>osutils.IsWindows()\<close> is a fact of the platform
  and is the first argument.
\<close>

definition sanitizeFileName :: "bool \<Rightarrow> string \<Rightarrow> string" where
  "sanitizeFileName isWindows fileName =
     (let fileName = ReplaceAll fileName ''http:'' '''';
          fileName = ReplaceAll fileName ''https:'' '''';
          fileName = ReplaceAll fileName ''/'' ''_'';
          fileName = ReplaceAll fileName [BSL] ''_'';
          fileName = ReplaceAll fileName ''-'' ''_'';
          fileName = ReplaceAll fileName ''.'' ''_'';
          fileName = (if isWindows then ReplaceAll fileName '':'' ''_'' else fileName);
          fileName = TrimPrefix fileName ''__''
      in fileName)"

section \<open>The regular expressions of the file\<close>

text \<open>
  Package \<^verbatim>\<open>regexp\<close> matches leftmost-first: the match starts as early as possible, and
  among the matches that start there it is the one a backtracking search finds first, so
  a greedy repetition takes as much as it can and gives bytes back one at a time. The three
  patterns of \<^verbatim>\<open>output.go\<close> are sequences of the items below; every repetition in them
  is over a single character class. A pattern is run against the text that remains,
  with the byte before it (for \<^verbatim>\<open>^\<close>) and the groups captured so far.
\<close>

datatype inst =
    Bot                            \<comment> \<open>\<^verbatim>\<open>^\<close>: the beginning of the text\<close>
  | Bol                            \<comment> \<open>\<^verbatim>\<open>^\<close> under \<^verbatim>\<open>(?m)\<close>: the beginning of the text or of a line\<close>
  | Lit string                     \<comment> \<open>literal bytes\<close>
  | One "char \<Rightarrow> bool"             \<comment> \<open>one byte of a class\<close>
  | Rep "char \<Rightarrow> bool" nat         \<comment> \<open>a class repeated, greedy, at least so many times\<close>
  | Open nat                       \<comment> \<open>the opening parenthesis of a group\<close>
  | Close nat                      \<comment> \<open>its closing parenthesis\<close>

record mstate =
  prev :: "char option"
  rest :: string
  opened :: "(nat \<times> string) list"
  closed :: "(nat \<times> string) list"

definition consume :: "nat \<Rightarrow> mstate \<Rightarrow> mstate" where
  "consume n st =
     st\<lparr> prev := (case rev (take n (rest st)) of [] \<Rightarrow> prev st | c # _ \<Rightarrow> Some c),
         rest := drop n (rest st),
         opened := map (\<lambda>(i, s). (i, s @ take n (rest st))) (opened st) \<rparr>"

text \<open>\<open>greedy f lo k\<close>: the first of \<open>k, k - 1, \<dots>, lo\<close> at which \<open>f\<close> succeeds.\<close>

fun greedy :: "(nat \<Rightarrow> 'a option) \<Rightarrow> nat \<Rightarrow> nat \<Rightarrow> 'a option" where
  "greedy f lo 0 = (if lo = 0 then f 0 else None)"
| "greedy f lo (Suc k) =
     (if Suc k < lo then None
      else case f (Suc k) of Some r \<Rightarrow> Some r | None \<Rightarrow> greedy f lo k)"

fun run :: "inst list \<Rightarrow> mstate \<Rightarrow> mstate option" where
  "run [] st = Some st"
| "run (Bot # is) st = (if prev st = None then run is st else None)"
| "run (Bol # is) st = (if prev st = None \<or> prev st = Some LF then run is st else None)"
| "run (Lit s # is) st =
     (if HasPrefix (rest st) s then run is (consume (length s) st) else None)"
| "run (One p # is) st =
     (case rest st of [] \<Rightarrow> None | c # _ \<Rightarrow> if p c then run is (consume 1 st) else None)"
| "run (Rep p lo # is) st =
     greedy (\<lambda>k. run is (consume k st)) lo (length (takeWhile p (rest st)))"
| "run (Open i # is) st = run is (st\<lparr>opened := (i, []) # opened st\<rparr>)"
| "run (Close i # is) st =
     run is (st\<lparr>opened := filter (\<lambda>(j, _). j \<noteq> i) (opened st),
                 closed := (i, case map_of (opened st) i of None \<Rightarrow> [] | Some s \<Rightarrow> s) # closed st\<rparr>)"

definition start :: "char option \<Rightarrow> string \<Rightarrow> mstate" where
  "start b s = \<lparr> prev = b, rest = s, opened = [], closed = [] \<rparr>"

text \<open>Group 0 is the whole match.\<close>

definition whole :: "inst list \<Rightarrow> inst list" where
  "whole is = Open 0 # is @ [Close 0]"

text \<open>
  The leftmost match in \<open>s\<close>, which follows the byte \<open>b\<close>: the bytes skipped before it and
  the state at its end.
\<close>

fun search :: "inst list \<Rightarrow> char option \<Rightarrow> string \<Rightarrow> (string \<times> mstate) option" where
  "search is b [] = map_option (Pair []) (run (whole is) (start b []))"
| "search is b (c # cs) =
     (case run (whole is) (start b (c # cs)) of
        Some st \<Rightarrow> Some ([], st)
      | None \<Rightarrow> map_option (\<lambda>(skipped, st). (c # skipped, st)) (search is (Some c) cs))"

definition group :: "mstate \<Rightarrow> nat \<Rightarrow> string" where
  "group st i = (case map_of (closed st) i of None \<Rightarrow> [] | Some s \<Rightarrow> s)"

fun groups :: "inst list \<Rightarrow> nat list" where
  "groups [] = []"
| "groups (Open i # is) = i # groups is"
| "groups (_ # is) = groups is"

definition submatches :: "inst list \<Rightarrow> mstate \<Rightarrow> string list" where
  "submatches is st = map (group st) (groups (whole is))"

text \<open>\<^verbatim>\<open>FindStringSubmatch\<close>: the whole match and its groups, or \<^verbatim>\<open>nil\<close> (the empty list).\<close>

definition FindStringSubmatch :: "inst list \<Rightarrow> string \<Rightarrow> string list" where
  "FindStringSubmatch is s =
     (case search is None s of None \<Rightarrow> [] | Some (_, st) \<Rightarrow> submatches is st)"

text \<open>
  \<^verbatim>\<open>FindAllStringSubmatch(s, -1)\<close> and \<^verbatim>\<open>ReplaceAll\<close>: the successive matches, each
  searched from the end of the one before. A match of the two patterns they are used
  with takes at least one byte, so the search always goes on in a shorter text; the test
  for it makes the recursion well-founded for every pattern.
\<close>

function FindAllFrom :: "inst list \<Rightarrow> char option \<Rightarrow> string \<Rightarrow> string list list" where
  "FindAllFrom is b s =
     (case search is b s of
        None \<Rightarrow> []
      | Some (_, st) \<Rightarrow>
          submatches is st #
          (if length (rest st) < length s then FindAllFrom is (prev st) (rest st) else []))"
  by pat_completeness auto
termination
  by (relation "measure (\<lambda>(is, b, s). length s)") auto

definition FindAllStringSubmatch :: "inst list \<Rightarrow> string \<Rightarrow> string list list" where
  "FindAllStringSubmatch is s = FindAllFrom is None s"

function ReplaceAllFrom :: "inst list \<Rightarrow> string \<Rightarrow> char option \<Rightarrow> string \<Rightarrow> string" where
  "ReplaceAllFrom is repl b s =
     (case search is b s of
        None \<Rightarrow> s
      | Some (skipped, st) \<Rightarrow>
          skipped @ repl @
          (if length (rest st) < length s then ReplaceAllFrom is repl (prev st) (rest st)
           else rest st))"
  by pat_completeness auto
termination
  by (relation "measure (\<lambda>(is, repl, b, s). length s)") auto

text \<open>The two equations are unfolded on demand only.\<close>

declare FindAllFrom.simps [simp del] ReplaceAllFrom.simps [simp del]

text \<open>The least number of bytes a match of a pattern takes.\<close>

fun min_len :: "inst list \<Rightarrow> nat" where
  "min_len [] = 0"
| "min_len (Lit s # is) = length s + min_len is"
| "min_len (One p # is) = 1 + min_len is"
| "min_len (Rep p lo # is) = lo + min_len is"
| "min_len (_ # is) = min_len is"

definition is_digit :: "char \<Rightarrow> bool" where
  "is_digit c = (c \<in> set ''0123456789'')"

definition is_alpha :: "char \<Rightarrow> bool" where
  "is_alpha c = (c \<in> set ''ABCDEFGHIJKLMNOPQRSTUVWXYZabcdefghijklmnopqrstuvwxyz'')"

text \<open>\<^verbatim>\<open>\w\<close> is \<^verbatim>\<open>[0-9A-Za-z_]\<close> and \<^verbatim>\<open>\s\<close> is \<^verbatim>\<open>[\t\n\f\r ]\<close>.\<close>

definition is_word :: "char \<Rightarrow> bool" where
  "is_word c = (is_digit c \<or> is_alpha c \<or> c = CHR ''_'')"

definition is_space :: "char \<Rightarrow> bool" where
  "is_space c = (c \<in> set [HT, LF, FF, CR, CHR '' ''])"

text \<open>Line 72: \<^verbatim>\<open>\x1B\[[0-9;]*[a-zA-Z]\<close>.\<close>

definition decolorizerRegex :: "inst list" where
  "decolorizerRegex = [Lit [ESC, CHR ''[''], Rep (\<lambda>c. is_digit c \<or> c = CHR '';'') 0, One is_alpha]"

text \<open>Line 342: \<^verbatim>\<open>(?m)^([\w-]+):\s*([^\n\r]*)[\n\r]+\<close>.\<close>

definition headerPattern :: "inst list" where
  "headerPattern =
     [Bol, Open 1, Rep (\<lambda>c. is_word c \<or> c = CHR ''-'') 1, Close 1, Lit '':'', Rep is_space 0,
      Open 2, Rep (\<lambda>c. c \<noteq> LF \<and> c \<noteq> CR) 0, Close 2, Rep (\<lambda>c. c = LF \<or> c = CR) 1]"

text \<open>Line 355: \<^verbatim>\<open>^HTTP/(\d+\.\d+)\s+(\d+)\s+.*\<close>; the dot matches every byte but a line feed.\<close>

definition statusPattern :: "inst list" where
  "statusPattern =
     [Bot, Lit ''HTTP/'', Open 1, Rep is_digit 1, Lit ''.'', Rep is_digit 1, Close 1,
      Rep is_space 1, Open 2, Rep is_digit 1, Close 2, Rep is_space 1, Rep (\<lambda>c. c \<noteq> LF) 0]"

section \<open>Numbers and base64 text\<close>

text \<open>
  \<^verbatim>\<open>strconv.Atoi\<close> where \<^verbatim>\<open>int\<close> has 64 bits (the image is built for \<^verbatim>\<open>linux/amd64\<close>): an
  optional sign and decimal digits; anything else is a syntax error with the value 0, and
  a number out of range comes back as the nearest bound together with a range error.
\<close>

datatype goerror = Err string | Wrapped string goerror

definition digit_val :: "char \<Rightarrow> int" where
  "digit_val c = int (of_char c) - 48"

definition decimal :: "string \<Rightarrow> int" where
  "decimal ds = foldl (\<lambda>n c. 10 * n + digit_val c) 0 ds"

definition max_int64 :: int where
  "max_int64 = 2 ^ 63 - 1"

definition Atoi :: "string \<Rightarrow> int \<times> goerror option" where
  "Atoi s =
     (let neg = HasPrefix s ''-'';
          ds = (if HasPrefix s ''-'' \<or> HasPrefix s ''+'' then drop 1 s else s)
      in if ds = [] \<or> \<not> list_all is_digit ds then (0, Some (Err ''invalid syntax''))
         else if neg then
           (if decimal ds > max_int64 + 1
            then (- max_int64 - 1, Some (Err ''value out of range''))
            else (- decimal ds, None))
         else
           (if decimal ds > max_int64 then (max_int64, Some (Err ''value out of range''))
            else (decimal ds, None)))"

text \<open>The verb \<^verbatim>\<open>%d\<close> of \<^verbatim>\<open>fmt.Sprintf\<close>.\<close>

fun digits10 :: "nat \<Rightarrow> string" where
  "digits10 n =
     (if n < 10 then [''0123456789'' ! n]
      else digits10 (n div 10) @ [''0123456789'' ! (n mod 10)])"

declare digits10.simps [simp del]

definition Itoa :: "int \<Rightarrow> string" where
  "Itoa i = (if i < 0 then CHR ''-'' # digits10 (nat (- i)) else digits10 (nat i))"

text \<open>\<^verbatim>\<open>base64.StdEncoding.EncodeToString\<close>: the standard alphabet, padded with \<open>=\<close>.\<close>

definition encodeStd :: string where
  "encodeStd = ''ABCDEFGHIJKLMNOPQRSTUVWXYZabcdefghijklmnopqrstuvwxyz0123456789+/''"

definition enc6 :: "nat \<Rightarrow> char" where
  "enc6 n = encodeStd ! (n mod 64)"

fun EncodeToString :: "string \<Rightarrow> string" where
  "EncodeToString [] = []"
| "EncodeToString [a] =
     (let x = (of_char a :: nat)
      in [enc6 (x div 4), enc6 ((x mod 4) * 16), CHR ''='', CHR ''=''])"
| "EncodeToString [a, b] =
     (let x = (of_char a :: nat); y = (of_char b :: nat)
      in [enc6 (x div 4), enc6 ((x mod 4) * 16 + y div 16), enc6 ((y mod 16) * 4), CHR ''=''])"
| "EncodeToString (a # b # c # src) =
     (let x = (of_char a :: nat); y = (of_char b :: nat); z = (of_char c :: nat)
      in [enc6 (x div 4), enc6 ((x mod 4) * 16 + y div 16),
          enc6 ((y mod 16) * 4 + z div 64), enc6 (z mod 64)] @ EncodeToString src)"

section \<open>The response normaliser\<close>

text \<open>
  \<^verbatim>\<open>extractResponseData\<close>, lines 340 to 365. The header map starts empty and every match of
  the header pattern stores its second group under its lower-cased first group; a match
  always has its three entries. The error of \<^verbatim>\<open>Atoi\<close> is dropped, as in the source.
\<close>

definition extractResponseData :: "string \<Rightarrow> string \<times> int \<times> (string \<rightharpoonup> string)" where
  "extractResponseData rawResponse =
     (let matches = FindAllStringSubmatch headerPattern rawResponse;
          headers = foldl (\<lambda>headers match. headers(ToLower (match ! 1) \<mapsto> match ! 2))
                      Map.empty matches;
          statusMatch = FindStringSubmatch statusPattern rawResponse;
          (httpVersion, statusCode) =
             (if length statusMatch > 2 then (statusMatch ! 1, fst (Atoi (statusMatch ! 2)))
              else ('''', 0))
      in (httpVersion, statusCode, headers))"

section \<open>Errors\<close>

text \<open>
  An \<^verbatim>\<open>error\<close> value is \<^typ>\<open>goerror option\<close>, \<^verbatim>\<open>nil\<close> being \<open>None\<close>. \<^verbatim>\<open>errors.Wrap\<close> of
  \<^verbatim>\<open>github.com/pkg/errors\<close> puts a message before an error and returns \<^verbatim>\<open>nil\<close> for
  \<^verbatim>\<open>nil\<close>.
\<close>

fun Error :: "goerror \<Rightarrow> string" where
  "Error (Err m) = m"
| "Error (Wrapped m e) = m @ '': '' @ Error e"

fun Wrap :: "goerror option \<Rightarrow> string \<Rightarrow> goerror option" where
  "Wrap None message = None"
| "Wrap (Some err) message = Some (Wrapped message err)"

text \<open>
  Modelled from the spec: \<^verbatim>\<open>utils.UnwrapError\<close>, of a package that is not among the files
  at hand. The spec: the error text embedded is taken by unwrapping a possibly-wrapped
  error down to its root cause.
\<close>

fun root_cause :: "goerror \<Rightarrow> goerror" where
  "root_cause (Err m) = Err m"
| "root_cause (Wrapped m e) = root_cause e"

definition UnwrapError :: "goerror option \<Rightarrow> goerror option" where
  "UnwrapError err = map_option root_cause err"

section \<open>The writer and its world\<close>

text \<open>
  \<^verbatim>\<open>ResultEvent\<close>, lines 112 to 159. \<^verbatim>\<open>Info\<close>, \<^verbatim>\<open>Metadata\<close>, \<^verbatim>\<open>Interaction\<close> and
  \<^verbatim>\<open>FileToIndexPosition\<close> are opaque to the functions below, which neither read nor
  write them, and are left out. A \<^verbatim>\<open>time.Time\<close> is a reading of the clock.
\<close>

record ResultEvent =
  Template :: string
  TemplateURL :: string
  TemplateID :: string
  TemplatePath :: string
  MatcherName :: string
  ExtractorName :: string
  Type :: string
  Host :: string
  Path :: string
  Matched :: string
  ExtractedResults :: "string list"
  Request :: string
  Response :: string
  IP :: string
  Timestamp :: nat
  CURLCommand :: string
  MatcherStatus :: bool
  Lines :: "int list"

record AstraMeta =
  Event :: string
  AuditId :: string
  JobId :: string
  ScanId :: string
  WebhookToken :: string
  Hostname :: string

record AstraAlertRequest =
  Meta :: AstraMeta
  Context :: string

record JSONLogRequest =
  log_Template :: string
  log_Input :: string
  log_Error :: string
  log_Type :: string

text \<open>
  An \<^verbatim>\<open>io.WriteCloser\<close> is named by the path it was opened on. \<^verbatim>\<open>StandardWriter\<close>, lines
  53 to 70: the mutex shows in the effects of \<open>Write\<close>, and the two colour fields are
  left out.
\<close>

datatype sink = Sink string

record StandardWriter =
  json :: bool
  jsonReqResp :: bool
  timestamp :: bool
  noMetadata :: bool
  matcherStatus :: bool
  AstraMeta :: AstraMeta
  AstraWebhook :: string
  AstraApiServiceName :: string
  outputFile :: "sink option"
  traceFile :: "sink option"
  errorFile :: "sink option"
  storeResponse :: bool
  storeResponseDir :: string

text \<open>The fields of \<^verbatim>\<open>types.Options\<close> that \<^verbatim>\<open>NewStandardWriter\<close> reads.\<close>

record Options =
  Resume :: string
  NoColor :: bool
  Output :: string
  TraceLogFile :: string
  ErrorLogFile :: string
  StoreResponse :: bool
  StoreResponseDir :: string
  JSONL :: bool
  JSONRequests :: bool
  NoMeta :: bool
  OptMatcherStatus :: bool
  OptTimestamp :: bool

record request =
  req_method :: string
  req_url :: string
  req_body :: string
  req_header :: "(string \<times> string) list"

record response =
  Status :: string

text \<open>
  What a call does to the world, in the order it does it, and how it ends: it returns, it
  panics, or the process exits (\<^verbatim>\<open>gologger.Fatal\<close>).
\<close>

datatype effect =
    Logged string                  \<comment> \<open>\<^verbatim>\<open>gologger.Info().Msg\<close>\<close>
  | Opened string bool             \<comment> \<open>\<^verbatim>\<open>newFileOutputWriter(path, resume)\<close>\<close>
  | MadeFolder string              \<comment> \<open>\<^verbatim>\<open>fileutil.CreateFolder\<close>\<close>
  | Requested request              \<comment> \<open>\<^verbatim>\<open>client.Do(req)\<close>\<close>
  | Posted string string           \<comment> \<open>\<^verbatim>\<open>http.Post(url, "application/json", body)\<close>\<close>
  | Locked                         \<comment> \<open>\<^verbatim>\<open>w.mutex.Lock()\<close>\<close>
  | Unlocked                       \<comment> \<open>the deferred \<^verbatim>\<open>w.mutex.Unlock()\<close>\<close>
  | Wrote sink string              \<comment> \<open>\<^verbatim>\<open>Write(data)\<close> on a sink\<close>

datatype 'a outcome = Returns 'a | Panics string | Exits nat

definition nil_dereference :: string where
  "nil_dereference = ''runtime error: invalid memory address or nil pointer dereference''"

text \<open>
  Everything the file calls and does not define is a field of the environment: the clock,
  the process environment, the file system, the network, Go's order of iteration over a
  map, the JSON encoders, and the functions of this repository that live in other files
  (\<^verbatim>\<open>newFileOutputWriter\<close>, \<^verbatim>\<open>formatJSON\<close>, \<^verbatim>\<open>formatScreen\<close>, \<^verbatim>\<open>utils.TemplatePathURL\<close>).
  The two renderers receive the event by pointer, so they return it as they leave it. The
  network answers with a response, an error, or both; an encoder whose error the source
  drops returns the bytes alone.
\<close>

record env =
  time_Now :: nat
  LookupEnv :: "string \<rightharpoonup> string"
  newFileOutputWriter :: "string \<Rightarrow> bool \<Rightarrow> goerror + sink"
  FolderExists :: "string \<Rightarrow> bool"
  CreateFolder :: "string \<Rightarrow> goerror option"
  url_parses :: "string \<Rightarrow> bool"
  client_Do :: "request \<Rightarrow> response option \<times> goerror option"
  http_Post :: "string \<Rightarrow> string \<Rightarrow> response option \<times> goerror option"
  sink_Write :: "sink \<Rightarrow> string \<Rightarrow> goerror option"
  TemplatePathURL :: "string \<Rightarrow> string \<times> string"
  map_range :: "(string \<rightharpoonup> string) \<Rightarrow> (string \<times> string) list"
  formatJSON :: "StandardWriter \<Rightarrow> ResultEvent \<Rightarrow> (goerror + string) \<times> ResultEvent"
  formatScreen :: "StandardWriter \<Rightarrow> ResultEvent \<Rightarrow> string \<times> ResultEvent"
  json_Marshal_map :: "(string \<rightharpoonup> string) \<Rightarrow> string"
  json_Marshal_state :: "string \<Rightarrow> string"
  json_Marshal_alert :: "AstraAlertRequest \<Rightarrow> string"
  jsoniter_Marshal :: "JSONLogRequest \<Rightarrow> goerror + string"

text \<open>\<^verbatim>\<open>http.NewRequest\<close> returns a \<^verbatim>\<open>nil\<close> request when the URL does not parse.\<close>

definition NewRequest :: "env \<Rightarrow> string \<Rightarrow> string \<Rightarrow> string \<Rightarrow> request option" where
  "NewRequest env method url body =
     (if url_parses env url
      then Some \<lparr> req_method = method, req_url = url, req_body = body, req_header = [] \<rparr>
      else None)"

definition reason_context :: "string \<Rightarrow> string" where
  "reason_context reason = ''{'' @ [DQ] @ ''reason'' @ [DQ] @ '':'' @ [DQ] @ reason @ [DQ] @ ''}''"

section \<open>Lifecycle notifications\<close>

text \<open>
  \<^verbatim>\<open>sendStatusChangeRequest\<close>, lines 279 to 322. The errors of \<^verbatim>\<open>NewRequest\<close>, \<^verbatim>\<open>client.Do\<close>
  and \<^verbatim>\<open>http.Post\<close> are dropped, and the request and the two responses are used at once:
  \<^verbatim>\<open>req.Header.Set\<close>, \<^verbatim>\<open>resp.Status\<close> and \<^verbatim>\<open>resp_.Status\<close> panic on \<^verbatim>\<open>nil\<close>.
\<close>

definition sendStatusChangeRequest ::
  "env \<Rightarrow> StandardWriter \<Rightarrow> string \<Rightarrow> unit outcome \<times> StandardWriter \<times> effect list" where
  "sendStatusChangeRequest env w action =
     (let fx = [Logged (''Sending status change request with action -> '' @ action @ [LF])];
          tempRequest =
            (if action = ''RUNNING'' then [''status'' \<mapsto> action, ''pid'' \<mapsto> ''15'']
             else [''status'' \<mapsto> action]);
          tempRequestBody = json_Marshal_map env tempRequest;
          postBody = json_Marshal_state env tempRequestBody
      in case NewRequest env ''PATCH''
                (''http://'' @ AstraApiServiceName w @ ''/api/nuclei/'' @ ScanId (AstraMeta w))
                postBody of
           None \<Rightarrow> (Panics nil_dereference, w, fx)
         | Some req0 \<Rightarrow>
            (let req = req0\<lparr>req_header := [(''Content-Type'', ''application/json'')]\<rparr>;
                 fx = fx @ [Requested req]
             in (case fst (client_Do env req) of
                  None \<Rightarrow> (Panics nil_dereference, w, fx)
                | Some resp \<Rightarrow>
                   (let fx = fx @
                          [Logged (''Status code received for `status change api` -> '' @
                                   Status resp @ [LF]),
                           Logged ''Triggering event on webhook url''];
                        w = w\<lparr>AstraMeta := (AstraMeta w)
                              \<lparr>Event := (if action = ''RUNNING'' then ''scan.started''
                                          else ''scan.complete'')\<rparr>\<rparr>;
                        tempAstraRequest =
                          \<lparr> Meta = AstraMeta w,
                            Context = (if action = ''RUNNING''
                                       then reason_context ''Scan Started successfully''
                                       else reason_context ''Scan Completed successfully'') \<rparr>;
                        postBody' = json_Marshal_alert env tempAstraRequest;
                        fx = fx @ [Posted (AstraWebhook w) postBody']
                    in (case fst (http_Post env (AstraWebhook w) postBody') of
                          None \<Rightarrow> (Panics nil_dereference, w, fx)
                        | Some resp' \<Rightarrow>
                            (Returns (), w,
                             fx @ [Logged (''Request status received -> '' @ Status resp' @
                                           '' for alert'' @ [LF])]))))))"

section \<open>Construction\<close>

text \<open>
  \<^verbatim>\<open>NewStandardWriter\<close>, lines 162 to 272: the three sinks are opened in turn, then the
  folder of the debug store is made, then the six variables are read, and at last the
  writer announces \<^verbatim>\<open>RUNNING\<close>. The result is the pair the source returns.
\<close>

definition NewStandardWriter ::
  "env \<Rightarrow> Options \<Rightarrow> (StandardWriter option \<times> goerror option) outcome \<times> effect list" where
  "NewStandardWriter env options =
     (let resumeBool = (Resume options \<noteq> []);
          out = (if Output options \<noteq> []
                 then map_sum id Some (newFileOutputWriter env (Output options) resumeBool)
                 else Inr None);
          fx = (if Output options \<noteq> [] then [Opened (Output options) resumeBool] else [])
      in case out of
           Inl err \<Rightarrow> (Returns (None, Wrap (Some err) ''could not create output file''), fx)
         | Inr outputFile' \<Rightarrow>
     (let trace = (if TraceLogFile options \<noteq> []
                   then map_sum id Some (newFileOutputWriter env (TraceLogFile options) resumeBool)
                   else Inr None);
          fx = fx @ (if TraceLogFile options \<noteq> []
                     then [Opened (TraceLogFile options) resumeBool] else [])
      in case trace of
           Inl err \<Rightarrow> (Returns (None, Wrap (Some err) ''could not create output file''), fx)
         | Inr traceOutput \<Rightarrow>
     (let error = (if ErrorLogFile options \<noteq> []
                   then map_sum id Some (newFileOutputWriter env (ErrorLogFile options) resumeBool)
                   else Inr None);
          fx = fx @ (if ErrorLogFile options \<noteq> []
                     then [Opened (ErrorLogFile options) resumeBool] else [])
      in case error of
           Inl err \<Rightarrow> (Returns (None, Wrap (Some err) ''could not create error file''), fx)
         | Inr errorOutput \<Rightarrow>
     (let make = (StoreResponse options \<and> \<not> FolderExists env (StoreResponseDir options));
          fx = fx @ (if make then [MadeFolder (StoreResponseDir options)] else [])
      in if make \<and> CreateFolder env (StoreResponseDir options) \<noteq> None then (Exits 1, fx)
         else
     (case LookupEnv env ''auditId'' of
        None \<Rightarrow> (Panics ''Audit Id env not present'', fx) | Some auditId \<Rightarrow>
     (case LookupEnv env ''jobId'' of
        None \<Rightarrow> (Panics ''Job Id env not present'', fx) | Some jobId \<Rightarrow>
     (case LookupEnv env ''scanId'' of
        None \<Rightarrow> (Panics ''Scan Id env not present'', fx) | Some scanId \<Rightarrow>
     (case LookupEnv env ''webhookToken'' of
        None \<Rightarrow> (Panics ''Webhook token env not present'', fx) | Some webhookToken \<Rightarrow>
     (case LookupEnv env ''webhookUrl'' of
        None \<Rightarrow> (Panics ''Webhook url env not present'', fx) | Some tempAstraWebhookUrl \<Rightarrow>
     (case LookupEnv env ''DAST_API_SVC_NAME'' of
        None \<Rightarrow> (Panics ''Support server env not present'', fx)
      | Some tempAstraApiServiceName \<Rightarrow>
     (let tempAstraMeta =
            \<lparr> Event = ''alert'', AuditId = auditId, JobId = jobId, ScanId = scanId,
              WebhookToken = webhookToken, Hostname = ''k8s'' \<rparr>;
          writer =
            \<lparr> json = JSONL options, jsonReqResp = JSONRequests options,
              timestamp = OptTimestamp options, noMetadata = NoMeta options,
              matcherStatus = OptMatcherStatus options, AstraMeta = tempAstraMeta,
              AstraWebhook = tempAstraWebhookUrl,
              AstraApiServiceName = tempAstraApiServiceName,
              outputFile = outputFile', traceFile = traceOutput, errorFile = errorOutput,
              storeResponse = StoreResponse options,
              storeResponseDir = StoreResponseDir options \<rparr>;
          fx = fx @ [Logged ''Changing scan state to running''];
          sent = sendStatusChangeRequest env writer ''RUNNING''
      in case fst sent of
           Returns u \<Rightarrow> (Returns (Some (fst (snd sent)), None), fx @ snd (snd sent))
         | Panics msg \<Rightarrow> (Panics msg, fx @ snd (snd sent))
         | Exits code \<Rightarrow> (Exits code, fx @ snd (snd sent)))))))))))))"

section \<open>Writing a finding\<close>

text \<open>
  \<^verbatim>\<open>Write\<close>, lines 368 to 432, in its three steps. The first, lines 370 to 387, changes
  the event through the pointer before anything can fail: the template fields, the
  timestamp, the response replaced by its canonical text, and both texts encoded.
  \<^verbatim>\<open>fmt.Sprintf\<close> is written out for its two formats.
\<close>

definition prepared :: "env \<Rightarrow> ResultEvent \<Rightarrow> ResultEvent" where
  "prepared env event0 =
     (let event =
            (if TemplatePath event0 \<noteq> []
             then event0\<lparr>Template := fst (TemplatePathURL env (TemplatePath event0)),
                         TemplateURL := snd (TemplatePathURL env (TemplatePath event0))\<rparr>
             else event0);
          event = event\<lparr>Timestamp := time_Now env\<rparr>;
          (httpVersion, statusCode, headers) = extractResponseData (Response event);
          newResponseString =
            ''HTTP version: '' @ httpVersion @ [LF] @ ''Status code: '' @ Itoa statusCode @ [LF];
          newResponseString =
            foldl (\<lambda>s (name, value). s @ (name @ '': '' @ value @ [LF]))
              newResponseString (map_range env headers);
          event = event\<lparr>Response := newResponseString\<rparr>;
          event = event\<lparr>Request := EncodeToString (Request event)\<rparr>;
          event = event\<lparr>Response := EncodeToString (Response event)\<rparr>
      in event)"

text \<open>
  The second, lines 389 to 393: what the renderer makes of the event, and the event as
  the renderer leaves it.
\<close>

definition render :: "env \<Rightarrow> StandardWriter \<Rightarrow> ResultEvent \<Rightarrow> (goerror + string) \<times> ResultEvent" where
  "render env w event =
     (if json w then formatJSON env w event
      else (Inr (fst (formatScreen env w event)), snd (formatScreen env w event)))"

text \<open>
  The third, from line 394 on: the two early returns, then the alert and the output file
  under the mutex. The call gives back the event whatever its outcome, with the writer
  and the effects. The deferred \<^verbatim>\<open>Unlock\<close> runs on every way out once the mutex is held,
  a panic included.
\<close>

definition Write ::
  "env \<Rightarrow> StandardWriter \<Rightarrow> ResultEvent
     \<Rightarrow> goerror option outcome \<times> StandardWriter \<times> ResultEvent \<times> effect list" where
  "Write env w event0 =
     (let (rendered, event) = render env w (prepared env event0)
      in case rendered of
           Inl err \<Rightarrow> (Returns (Wrap (Some err) ''could not format output''), w, event, [])
         | Inr data \<Rightarrow>
             if length data = 0 then (Returns None, w, event, [])
             else
              (let fx = [Locked, Logged (''Raising alert for -> '' @ TemplateURL event @ [LF])];
                   w = w\<lparr>AstraMeta := (AstraMeta w)\<lparr>Event := ''alert''\<rparr>\<rparr>;
                   tempRequest = \<lparr> Meta = AstraMeta w, Context = data \<rparr>;
                   postBody = json_Marshal_alert env tempRequest;
                   (resp, err) = http_Post env (AstraWebhook w) postBody;
                   fx = fx @ [Posted (AstraWebhook w) postBody]
               in (case resp of
                     None \<Rightarrow> (Panics nil_dereference, w, event, fx @ [Unlocked])
                   | Some r \<Rightarrow>
                      (let fx = fx @ [Logged (''Request status received -> '' @ Status r @
                                              '' for alert'' @ [LF])]
                       in (case outputFile w of
                             None \<Rightarrow> (Returns None, w, event, fx @ [Unlocked])
                           | Some file \<Rightarrow>
                              (let data = (if \<not> json w
                                           then ReplaceAllFrom decolorizerRegex [] None data
                                           else data);
                                   writeErr = sink_Write env file data;
                                   fx = fx @ [Wrote file data]
                               in if writeErr \<noteq> None
                                  then (Returns (Wrap err ''could not write to output''),
                                        w, event, fx @ [Unlocked])
                                  else (Returns None, w, event, fx @ [Unlocked])))))))"

section \<open>The trace and error logs\<close>

text \<open>
  The method \<^verbatim>\<open>Request\<close>, lines 443 to 470, here \<open>Request_log\<close> (\<open>Request\<close> is a field of
  the event). Nothing is returned; what the two \<^verbatim>\<open>Write\<close> calls return is dropped.
\<close>

definition Request_log ::
  "env \<Rightarrow> StandardWriter \<Rightarrow> string \<Rightarrow> string \<Rightarrow> string \<Rightarrow> goerror option \<Rightarrow> effect list" where
  "Request_log env w templatePath input requestType requestErr =
     (if traceFile w = None \<and> errorFile w = None then []
      else
        let request =
              \<lparr> log_Template = templatePath, log_Input = input,
                log_Error = (case UnwrapError requestErr of
                               Some unwrappedErr \<Rightarrow> Error unwrappedErr
                             | None \<Rightarrow> ''none''),
                log_Type = requestType \<rparr>
        in case jsoniter_Marshal env request of
             Inl err \<Rightarrow> []
           | Inr data \<Rightarrow>
               (case traceFile w of Some file \<Rightarrow> [Wrote file data] | None \<Rightarrow> []) @
               (case errorFile w of
                  Some file \<Rightarrow> if requestErr \<noteq> None then [Wrote file data] else []
                | None \<Rightarrow> []))"

section \<open>Auxiliary notions for the statements\<close>

text \<open>\<^verbatim>\<open>strings.Contains\<close>.\<close>

fun Contains :: "string \<Rightarrow> string \<Rightarrow> bool" where
  "Contains [] sub = (sub = [])"
| "Contains (c # cs) sub = (HasPrefix (c # cs) sub \<or> Contains cs sub)"

text \<open>The file name after the replacements of lines 518 to 526, before the prefix is trimmed.\<close>

definition replaced :: "bool \<Rightarrow> string \<Rightarrow> string" where
  "replaced isWindows fileName =
     (let fileName = ReplaceAll fileName ''http:'' '''';
          fileName = ReplaceAll fileName ''https:'' '''';
          fileName = ReplaceAll fileName ''/'' ''_'';
          fileName = ReplaceAll fileName [BSL] ''_'';
          fileName = ReplaceAll fileName ''-'' ''_'';
          fileName = ReplaceAll fileName ''.'' ''_''
      in if isWindows then ReplaceAll fileName '':'' ''_'' else fileName)"

text \<open>
  The canonical rendering of a response: the two lines of the preamble, then one line for
  each header of the list.
\<close>

definition header_line :: "string \<times> string \<Rightarrow> string" where
  "header_line h = fst h @ '': '' @ snd h @ [LF]"

definition canonical :: "string \<Rightarrow> int \<Rightarrow> (string \<times> string) list \<Rightarrow> string" where
  "canonical httpVersion statusCode hs =
     ''HTTP version: '' @ httpVersion @ [LF] @ ''Status code: '' @ Itoa statusCode @ [LF] @
     concat (map header_line hs)"

text \<open>The alphabet of base64 text.\<close>

definition base64_text :: "string \<Rightarrow> bool" where
  "base64_text s = (set s \<subseteq> set encodeStd \<union> {CHR ''=''})"

text \<open>A renderer that leaves the three fields of the event that \<open>Write\<close> has set.\<close>

definition keeps :: "ResultEvent \<Rightarrow> ResultEvent \<Rightarrow> bool" where
  "keeps e e' =
     (Timestamp e' = Timestamp e \<and> Request e' = Request e \<and> Response e' = Response e)"

section \<open>The parts of a call, named for the statements\<close>

definition outcome_of :: "'a \<times> 'b \<times> 'c \<times> 'd \<Rightarrow> 'a" where
  "outcome_of r = fst r"

definition writer_of :: "'a \<times> 'b \<times> 'c \<times> 'd \<Rightarrow> 'b" where
  "writer_of r = fst (snd r)"

definition event_of :: "'a \<times> 'b \<times> 'c \<times> 'd \<Rightarrow> 'c" where
  "event_of r = fst (snd (snd r))"

definition effects_of :: "'a \<times> 'b \<times> 'c \<times> 'd \<Rightarrow> 'd" where
  "effects_of r = snd (snd (snd r))"

definition version_of :: "string \<Rightarrow> string" where
  "version_of raw = fst (extractResponseData raw)"

definition status_of :: "string \<Rightarrow> int" where
  "status_of raw = fst (snd (extractResponseData raw))"

definition headers_of :: "string \<Rightarrow> (string \<rightharpoonup> string)" where
  "headers_of raw = snd (snd (extractResponseData raw))"

text \<open>
  Go's \<^verbatim>\<open>range\<close> over a map visits every entry once, in an order of its own: the list
  enumerates the map.
\<close>

definition enumerates :: "(string \<times> string) list \<Rightarrow> (string \<rightharpoonup> string) \<Rightarrow> bool" where
  "enumerates hs m = (distinct (map fst hs) \<and> map_of hs = m)"

text \<open>A configured sink path that cannot be opened, and the six variables of the environment.\<close>

definition cannot_open :: "env \<Rightarrow> Options \<Rightarrow> string \<Rightarrow> bool" where
  "cannot_open env options path =
     (path \<noteq> [] \<and> isl (newFileOutputWriter env path (Resume options \<noteq> [])))"

definition cannot_make_folder :: "env \<Rightarrow> Options \<Rightarrow> bool" where
  "cannot_make_folder env options =
     (StoreResponse options \<and> \<not> FolderExists env (StoreResponseDir options) \<and>
      CreateFolder env (StoreResponseDir options) \<noteq> None)"

definition required_env :: "string list" where
  "required_env =
     [''auditId'', ''jobId'', ''scanId'', ''webhookToken'', ''webhookUrl'', ''DAST_API_SVC_NAME'']"

definition env_complete :: "env \<Rightarrow> bool" where
  "env_complete env = list_all (\<lambda>name. LookupEnv env name \<noteq> None) required_env"

text \<open>
  A response as the spec describes it: a status line, header lines, a blank line and a
  body. A header name is a run of word bytes and dashes; a header value here is not
  empty, does not begin with white space and holds no line end; the body has no line that
  looks like a header.
\<close>

definition header_name :: "string \<Rightarrow> bool" where
  "header_name n = (n \<noteq> [] \<and> list_all (\<lambda>c. is_word c \<or> c = CHR ''-'') n)"

definition header_value :: "string \<Rightarrow> bool" where
  "header_value v =
     (v \<noteq> [] \<and> \<not> is_space (hd v) \<and> list_all (\<lambda>c. c \<noteq> LF \<and> c \<noteq> CR) v)"

definition raw_header :: "string \<times> string \<Rightarrow> string" where
  "raw_header h = fst h @ '': '' @ snd h @ [CR, LF]"

definition digits :: "string \<Rightarrow> bool" where
  "digits s = (s \<noteq> [] \<and> list_all is_digit s)"

text \<open>What follows the first header: the other headers and the blank line, then the body.\<close>

definition remainder :: "(string \<times> string) list \<Rightarrow> string \<Rightarrow> string" where
  "remainder hs body = (if hs = [] then body else concat (map raw_header hs) @ [CR, LF] @ body)"

text \<open>The two groups of a header match.\<close>

definition fields :: "string list \<Rightarrow> string \<times> string" where
  "fields match = (match ! 1, match ! 2)"

definition wellformed :: "(string \<times> string) list \<Rightarrow> bool" where
  "wellformed hs = list_all (\<lambda>h. header_name (fst h) \<and> header_value (snd h)) hs"

definition plain_body :: "string \<Rightarrow> bool" where
  "plain_body body =
     ((body = [] \<or> \<not> (hd body = LF \<or> hd body = CR)) \<and>
      search headerPattern (Some LF) body = None)"

section \<open>A concrete world\<close>

text \<open>
  A world in which every call succeeds, a writer with its three sinks, and the finding of
  the spec's example; the statements below are run on them.
\<close>

definition ok_response :: response where
  "ok_response = \<lparr> Status = ''200 OK'' \<rparr>"

definition world :: env where
  "world =
     \<lparr> time_Now = 1700000000,
       LookupEnv = [''auditId'' \<mapsto> ''a1'', ''jobId'' \<mapsto> ''j1'', ''scanId'' \<mapsto> ''s1'',
                    ''webhookToken'' \<mapsto> ''t1'', ''webhookUrl'' \<mapsto> ''http://hook/'',
                    ''DAST_API_SVC_NAME'' \<mapsto> ''dast''],
       newFileOutputWriter = (\<lambda>path resume. Inr (Sink path)),
       FolderExists = (\<lambda>dir. True),
       CreateFolder = (\<lambda>dir. None),
       url_parses = (\<lambda>url. True),
       client_Do = (\<lambda>req. (Some ok_response, None)),
       http_Post = (\<lambda>url body. (Some ok_response, None)),
       sink_Write = (\<lambda>file data. None),
       TemplatePathURL = (\<lambda>path. (path, '''')),
       map_range = (\<lambda>headers. [(''content-type'', ''text/html'')]),
       formatJSON = (\<lambda>w event. (Inr (''{'' @ TemplateID event @ ''}''), event)),
       formatScreen = (\<lambda>w event. (TemplateID event, event)),
       json_Marshal_map = (\<lambda>m. ''{}''),
       json_Marshal_state = (\<lambda>body. body),
       json_Marshal_alert = Context,
       jsoniter_Marshal = (\<lambda>r. Inr (log_Error r)) \<rparr>"

definition meta0 :: AstraMeta where
  "meta0 = \<lparr> Event = ''scan.started'', AuditId = ''a1'', JobId = ''j1'', ScanId = ''s1'',
             WebhookToken = ''t1'', Hostname = ''k8s'' \<rparr>"

definition writer0 :: StandardWriter where
  "writer0 =
     \<lparr> json = True, jsonReqResp = False, timestamp = False, noMetadata = False,
       matcherStatus = False, AstraMeta = meta0, AstraWebhook = ''http://hook/'',
       AstraApiServiceName = ''dast'', outputFile = Some (Sink ''out.jsonl''),
       traceFile = Some (Sink ''trace.log''), errorFile = Some (Sink ''error.log''),
       storeResponse = False, storeResponseDir = '''' \<rparr>"

definition raw_example :: string where
  "raw_example =
     ''HTTP/1.1 200 OK'' @ [CR, LF] @ ''Content-Type: text/html'' @ [CR, LF, CR, LF] @ ''<html/>''"

definition finding :: ResultEvent where
  "finding =
     \<lparr> Template = '''', TemplateURL = '''', TemplateID = ''tech-detect'', TemplatePath = '''',
       MatcherName = '''', ExtractorName = '''', Type = ''http'', Host = ''example.com'',
       Path = '''', Matched = ''http://example.com/'', ExtractedResults = [],
       Request = ''GET / HTTP/1.1'', Response = raw_example, IP = '''', Timestamp = 42,
       CURLCommand = '''', MatcherStatus = True, Lines = [] \<rparr>"

definition options0 :: Options where
  "options0 =
     \<lparr> Resume = '''', NoColor = True, Output = ''out.jsonl'', TraceLogFile = '''',
       ErrorLogFile = '''', StoreResponse = False, StoreResponseDir = '''', JSONL = True,
       JSONRequests = False, NoMeta = False, OptMatcherStatus = False, OptTimestamp = False \<rparr>"

text \<open>Worlds in which something fails, and a response with a header that has no value.\<close>

definition world_disk_full :: env where
  "world_disk_full = world\<lparr>sink_Write := (\<lambda>file data. Some (Err ''no space left on device''))\<rparr>"

definition world_offline :: env where
  "world_offline =
     world\<lparr>client_Do := (\<lambda>req. (None, Some (Err ''connection refused''))),
           http_Post := (\<lambda>url body. (None, Some (Err ''connection refused'')))\<rparr>"

definition world_unconfigured :: env where
  "world_unconfigured =
     world\<lparr>LookupEnv := Map.empty,
           newFileOutputWriter := (\<lambda>path resume. Inl (Err ''permission denied''))\<rparr>"

definition world_read_only :: env where
  "world_read_only =
     world\<lparr>FolderExists := (\<lambda>dir. False),
           CreateFolder := (\<lambda>dir. Some (Err ''read-only file system''))\<rparr>"

definition options_store :: Options where
  "options_store = options0\<lparr>StoreResponse := True, StoreResponseDir := ''responses''\<rparr>"

definition world_no_env :: env where
  "world_no_env = world\<lparr>LookupEnv := Map.empty\<rparr>"

definition world_silent :: env where
  "world_silent = world\<lparr>formatJSON := (\<lambda>w event. (Inr [], event))\<rparr>"

text \<open>
  A world whose JSON renderer shows the request and the response only when the writer was
  asked for them: the field \<^verbatim>\<open>jsonReqResp\<close>, which \<^verbatim>\<open>output.go\<close> sets at line 251 and reads
  nowhere, is there for the renderer. Otherwise the renderer blanks the two fields of the
  event it was handed. And a writer that was asked for them.
\<close>

definition world_hidden :: env where
  "world_hidden =
     world\<lparr>formatJSON :=
             (\<lambda>w event.
                (let shown = (if jsonReqResp w then event
                              else event\<lparr>Request := [], Response := []\<rparr>)
                 in (Inr (''{'' @ TemplateID shown @ ''}''), shown)))\<rparr>"

definition writer_requests :: StandardWriter where
  "writer_requests = writer0\<lparr>jsonReqResp := True\<rparr>"

definition raw_empty_value :: string where
  "raw_empty_value =
     ''HTTP/1.1 200 OK'' @ [CR, LF] @ ''X-Empty:'' @ [CR, LF] @
     ''Content-Type: text/html'' @ [CR, LF, CR, LF]"


section \<open>Properties of the matcher\<close>

text \<open>
  A match takes at least \<open>min_len\<close> bytes of the text, so for a pattern that cannot match
  the empty string the test in \<open>FindAllFrom\<close> and \<open>ReplaceAllFrom\<close> always succeeds:
  the two functions go through all the matches. This holds for the header pattern and for
  the pattern of the colour codes.
\<close>

lemma greedy_Some:
  "greedy f lo k = Some r \<Longrightarrow> \<exists>j. lo \<le> j \<and> j \<le> k \<and> f j = Some r"
proof (induction k)
  case 0
  then show ?case by (auto split: if_splits)
next
  case (Suc k)
  show ?case
  proof (cases "f (Suc k)")
    case None
    with Suc.prems have "greedy f lo k = Some r" by (simp split: if_splits)
    from Suc.IH [OF this] obtain j where "lo \<le> j" "j \<le> k" "f j = Some r" by blast
    then have "lo \<le> j \<and> j \<le> Suc k \<and> f j = Some r" by simp
    then show ?thesis by (rule exI)
  next
    case (Some a)
    with Suc.prems have "\<not> Suc k < lo" and "a = r" by (simp_all split: if_splits)
    with Some have "lo \<le> Suc k \<and> Suc k \<le> Suc k \<and> f (Suc k) = Some r" by simp
    then show ?thesis by (rule exI)
  qed
qed

lemma rest_consume: "rest (consume n st) = drop n (rest st)"
  by (simp add: consume_def)

lemma run_consumes:
  "run is st = Some st' \<Longrightarrow> length (rest st') + min_len is \<le> length (rest st)"
proof (induction "is" st rule: run.induct)
  case (4 s "is" st)
  from "4.prems" have p: "take (length s) (rest st) = s"
    and r: "run is (consume (length s) st) = Some st'"
    by (simp_all add: HasPrefix_def split: if_splits)
  from p have "length (take (length s) (rest st)) = length s" by simp
  then have "length s \<le> length (rest st)" by simp
  moreover from "4.IH" p r have "length (rest st') + min_len is \<le> length (rest st) - length s"
    by (simp add: rest_consume HasPrefix_def)
  ultimately show ?case by simp
next
  case (5 p "is" st)
  then show ?case
    by (auto simp: rest_consume split: list.splits if_splits)
next
  case (6 p lo "is" st)
  from "6.prems"
  have "greedy (\<lambda>k. run is (consume k st)) lo (length (takeWhile p (rest st))) = Some st'"
    by simp
  from greedy_Some [OF this]
  obtain j where j: "lo \<le> j" "j \<le> length (takeWhile p (rest st))"
    and r: "run is (consume j st) = Some st'"
    by blast
  from "6.IH" [OF r] have "length (rest st') + min_len is \<le> length (rest st) - j"
    by (simp add: rest_consume)
  moreover have "length (takeWhile p (rest st)) \<le> length (rest st)"
    by (rule length_takeWhile_le)
  ultimately show ?case using j by simp
qed (auto split: if_splits)

lemma min_len_append: "min_len (is @ js) = min_len is + min_len js"
  by (induction "is" rule: min_len.induct) simp_all

lemma search_consumes:
  "search is b s = Some (skipped, st) \<Longrightarrow> length (rest st) + min_len is \<le> length s"
proof (induction s arbitrary: b skipped)
  case Nil
  then show ?case using run_consumes [of "whole is" "start b []" st]
    by (auto simp: whole_def start_def min_len_append)
next
  case (Cons c cs)
  show ?case
  proof (cases "run (whole is) (start b (c # cs))")
    case None
    with Cons.prems obtain sk where "search is (Some c) cs = Some (sk, st)"
      by auto
    from Cons.IH [OF this] show ?thesis by simp
  next
    case (Some a)
    with Cons.prems have "a = st" by simp
    with Some show ?thesis using run_consumes [of "whole is" "start b (c # cs)" st]
      by (simp add: whole_def start_def min_len_append)
  qed
qed

lemma FindAllFrom_goes_on:
  assumes "0 < min_len is"
  shows "FindAllFrom is b s =
     (case search is b s of
        None \<Rightarrow> []
      | Some (_, st) \<Rightarrow> submatches is st # FindAllFrom is (prev st) (rest st))"
proof (cases "search is b s")
  case None
  then show ?thesis by (simp add: FindAllFrom.simps)
next
  case (Some a)
  obtain sk st where a: "a = (sk, st)" by (cases a)
  from search_consumes [of "is" b s sk st] Some a assms have "length (rest st) < length s"
    by simp
  with Some a show ?thesis by (subst FindAllFrom.simps) simp
qed

lemma ReplaceAllFrom_goes_on:
  assumes "0 < min_len is"
  shows "ReplaceAllFrom is repl b s =
     (case search is b s of
        None \<Rightarrow> s
      | Some (skipped, st) \<Rightarrow> skipped @ repl @ ReplaceAllFrom is repl (prev st) (rest st))"
proof (cases "search is b s")
  case None
  then show ?thesis by (simp add: ReplaceAllFrom.simps)
next
  case (Some a)
  obtain sk st where a: "a = (sk, st)" by (cases a)
  from search_consumes [of "is" b s sk st] Some a assms have "length (rest st) < length s"
    by simp
  with Some a show ?thesis by (subst ReplaceAllFrom.simps) simp
qed

lemma min_len_headerPattern: "min_len headerPattern = 3"
  by (simp add: headerPattern_def)

lemma min_len_decolorizerRegex: "min_len decolorizerRegex = 3"
  by (simp add: decolorizerRegex_def)

section \<open>Properties of the file names\<close>

lemma ReplaceAll_char:
  "ReplaceAll s [c] [d] = map (\<lambda>x. if x = c then d else x) s"
  by (induction s) (simp_all add: HasPrefix_def)

lemma ReplaceAll_absent:
  "\<not> Contains s old \<Longrightarrow> ReplaceAll s old new = s"
  by (induction s) simp_all

lemma sanitizeFileName_replaced:
  "sanitizeFileName win x = TrimPrefix (replaced win x) ''__''"
  by (simp add: sanitizeFileName_def replaced_def Let_def)

lemma set_TrimPrefix: "set (TrimPrefix s p) \<subseteq> set s"
  by (auto simp: TrimPrefix_def dest: in_set_dropD)

lemma map_absent: "c \<notin> set s \<Longrightarrow> map (\<lambda>x. if x = c then d else x) s = s"
  by (induction s) auto

lemma subst_gone: "d \<noteq> c \<Longrightarrow> c \<notin> set (map (\<lambda>x. if x = c then d else x) s)"
  by (induction s) auto

lemma subst_keeps: "d \<noteq> c \<Longrightarrow> c \<notin> set s \<Longrightarrow> c \<notin> set (map (\<lambda>x. if x = e then d else x) s)"
  by (induction s) auto

lemma replaced_slash: "CHR ''/'' \<notin> set (replaced win x)"
  unfolding replaced_def Let_def ReplaceAll_char
  by (cases win; simp only: if_True if_False; (rule subst_gone | rule subst_keeps | simp)+)

lemma replaced_backslash: "BSL \<notin> set (replaced win x)"
  unfolding replaced_def Let_def ReplaceAll_char
  by (cases win; simp only: if_True if_False; (rule subst_gone | rule subst_keeps | simp)+)

lemma replaced_dash: "CHR ''-'' \<notin> set (replaced win x)"
  unfolding replaced_def Let_def ReplaceAll_char
  by (cases win; simp only: if_True if_False; (rule subst_gone | rule subst_keeps | simp)+)

lemma replaced_dot: "CHR ''.'' \<notin> set (replaced win x)"
  unfolding replaced_def Let_def ReplaceAll_char
  by (cases win; simp only: if_True if_False; (rule subst_gone | rule subst_keeps | simp)+)

lemma replaced_colon: "CHR '':'' \<notin> set (replaced True x)"
  unfolding replaced_def Let_def ReplaceAll_char
  by (simp only: if_True; (rule subst_gone | simp)+)

lemma TrimPrefix_chars: "c \<notin> set s \<Longrightarrow> c \<notin> set (TrimPrefix s p)"
  using set_TrimPrefix [of s p] by blast

lemma replaced_fixed:
  assumes "\<not> Contains y ''http:''" and "\<not> Contains y ''https:''"
    and "CHR ''/'' \<notin> set y" and "BSL \<notin> set y" and "CHR ''-'' \<notin> set y"
    and "CHR ''.'' \<notin> set y" and "win \<longrightarrow> CHR '':'' \<notin> set y"
  shows "replaced win y = y"
proof -
  have a: "ReplaceAll y ''http:'' [] = y" using assms(1) by (rule ReplaceAll_absent)
  have b: "ReplaceAll y ''https:'' [] = y" using assms(2) by (rule ReplaceAll_absent)
  have c: "ReplaceAll y ''/'' ''_'' = y" using assms(3) by (simp add: ReplaceAll_char map_absent)
  have d: "ReplaceAll y [BSL] ''_'' = y" using assms(4) by (simp add: ReplaceAll_char map_absent)
  have e: "ReplaceAll y ''-'' ''_'' = y" using assms(5) by (simp add: ReplaceAll_char map_absent)
  have f: "ReplaceAll y ''.'' ''_'' = y" using assms(6) by (simp add: ReplaceAll_char map_absent)
  have g: "win \<Longrightarrow> ReplaceAll y '':'' ''_'' = y"
    using assms(7) by (simp add: ReplaceAll_char map_absent)
  show ?thesis
    unfolding replaced_def Let_def a b c d e f using g by (cases win) simp_all
qed

lemma ReplaceAll_skip:
  "\<not> HasPrefix (c # cs) old \<Longrightarrow> ReplaceAll (c # cs) old new = c # ReplaceAll cs old new"
  by simp

lemma replaced_underscores:
  "replaced win (''__'' @ x) = ''__'' @ replaced win x"
proof -
  have a: "ReplaceAll (''__'' @ x) ''http:'' [] = ''__'' @ ReplaceAll x ''http:'' []" for x
    by (simp add: HasPrefix_def)
  have b: "ReplaceAll (''__'' @ x) ''https:'' [] = ''__'' @ ReplaceAll x ''https:'' []" for x
    by (simp add: HasPrefix_def)
  have c: "ReplaceAll (''__'' @ x) [k] ''_'' = ''__'' @ ReplaceAll x [k] ''_''" for x k
    by (simp add: ReplaceAll_char)
  show ?thesis
    unfolding replaced_def Let_def a b c by (cases win) simp_all
qed

lemma sanitizeFileName_example:
  "sanitizeFileName win ''https://example.com/path'' = ''example_com_path''"
  by (cases win) (simp_all add: sanitizeFileName_def HasPrefix_def TrimPrefix_def)

text \<open>
  Claim C4, as amended. The output of \<open>sanitizeFileName\<close> never contains \<open>/\<close> or a
  backslash; a leading \<open>__\<close> of the input is stripped to nothing, the rest of the name
  being what the replacements make of it; the name of \<^verbatim>\<open>https://example.com/path\<close> is
  \<^verbatim>\<open>example_com_path\<close>; and a second pass changes nothing whenever the first result does
  not begin with \<open>__\<close> and contains neither \<^verbatim>\<open>http:\<close> nor \<^verbatim>\<open>https:\<close>.
\<close>

theorem sanitizeFileName_amended:
  "CHR ''/'' \<notin> set (sanitizeFileName win x) \<and> BSL \<notin> set (sanitizeFileName win x) \<and>
   sanitizeFileName win (''__'' @ x) = replaced win x \<and>
   sanitizeFileName win ''https://example.com/path'' = ''example_com_path'' \<and>
   (\<not> HasPrefix (sanitizeFileName win x) ''__'' \<and>
    \<not> Contains (sanitizeFileName win x) ''http:'' \<and>
    \<not> Contains (sanitizeFileName win x) ''https:'' \<longrightarrow>
    sanitizeFileName win (sanitizeFileName win x) = sanitizeFileName win x)"
proof (intro conjI impI)
  show "CHR ''/'' \<notin> set (sanitizeFileName win x)"
    unfolding sanitizeFileName_replaced by (rule TrimPrefix_chars) (rule replaced_slash)
  show "BSL \<notin> set (sanitizeFileName win x)"
    unfolding sanitizeFileName_replaced by (rule TrimPrefix_chars) (rule replaced_backslash)
  show "sanitizeFileName win (''__'' @ x) = replaced win x"
    unfolding sanitizeFileName_replaced replaced_underscores
    by (simp add: TrimPrefix_def HasPrefix_def)
  show "sanitizeFileName win ''https://example.com/path'' = ''example_com_path''"
    by (rule sanitizeFileName_example)
next
  let ?y = "sanitizeFileName win x"
  assume h: "\<not> HasPrefix ?y ''__'' \<and> \<not> Contains ?y ''http:'' \<and> \<not> Contains ?y ''https:''"
  have chars: "CHR ''/'' \<notin> set ?y" "BSL \<notin> set ?y" "CHR ''-'' \<notin> set ?y" "CHR ''.'' \<notin> set ?y"
    unfolding sanitizeFileName_replaced
    by (rule TrimPrefix_chars, rule replaced_slash replaced_backslash replaced_dash replaced_dot)+
  have colon: "win \<longrightarrow> CHR '':'' \<notin> set ?y"
    using TrimPrefix_chars [OF replaced_colon, of x "''__''"]
    unfolding sanitizeFileName_replaced by (cases win) simp_all
  have "replaced win ?y = ?y"
    using h chars colon by (intro replaced_fixed) simp_all
  then show "sanitizeFileName win ?y = ?y"
    using h by (simp add: sanitizeFileName_replaced [of win ?y] TrimPrefix_def)
qed

text \<open>The name of the example satisfies the three conditions, and is a fixed point.\<close>

theorem sanitizeFileName_amended_witness:
  "\<not> HasPrefix (sanitizeFileName False ''https://example.com/path'') ''__'' \<and>
   \<not> Contains (sanitizeFileName False ''https://example.com/path'') ''http:'' \<and>
   \<not> Contains (sanitizeFileName False ''https://example.com/path'') ''https:'' \<and>
   sanitizeFileName False (sanitizeFileName False ''https://example.com/path'') =
     ''example_com_path''"
proof -
  have h: "\<not> HasPrefix ''example_com_path'' ''__'' \<and> \<not> Contains ''example_com_path'' ''http:'' \<and>
      \<not> Contains ''example_com_path'' ''https:''"
    by (simp add: HasPrefix_def)
  show ?thesis
    using sanitizeFileName_amended [of False "''https://example.com/path''"] h
    unfolding sanitizeFileName_example by simp
qed

text \<open>
  Claim C4 as stated fails: only one leading \<open>__\<close> is trimmed, so \<^verbatim>\<open>////\<close> becomes \<open>__\<close>, and
  \<open>__\<close> becomes the empty name.
\<close>

theorem sanitizeFileName_not_idempotent:
  "sanitizeFileName False (sanitizeFileName False ''////'') \<noteq> sanitizeFileName False ''////''"
  by (simp add: sanitizeFileName_def HasPrefix_def TrimPrefix_def)

section \<open>Properties of the write path\<close>

lemma foldl_lines:
  "foldl (\<lambda>s h. s @ f h) acc hs = acc @ concat (map f hs)"
  by (induction hs arbitrary: acc) simp_all

lemma header_line_fun: "header_line = (\<lambda>h. fst h @ '': '' @ snd h @ [LF])"
  by (rule ext) (simp add: header_line_def)

lemma extractResponseData_parts:
  "extractResponseData raw = (version_of raw, status_of raw, headers_of raw)"
  by (simp add: version_of_def status_of_def headers_of_def)

lemma prepared_Timestamp: "Timestamp (prepared env event) = time_Now env"
  by (simp add: prepared_def Let_def split: prod.splits)

lemma prepared_Request: "Request (prepared env event) = EncodeToString (Request event)"
  by (simp add: prepared_def Let_def split: prod.splits)

lemma prepared_Response:
  "Response (prepared env event) =
   EncodeToString (canonical (version_of (Response event)) (status_of (Response event))
     (map_range env (headers_of (Response event))))"
  by (simp add: prepared_def Let_def extractResponseData_parts foldl_lines canonical_def
        header_line_fun case_prod_unfold del: EncodeToString.simps)

lemma length_encodeStd: "length encodeStd = 64"
  by (simp add: encodeStd_def)

lemma enc6_alphabet: "enc6 n \<in> set encodeStd"
  unfolding enc6_def by (rule nth_mem) (simp add: length_encodeStd)

lemma EncodeToString_alphabet: "base64_text (EncodeToString s)"
  unfolding base64_text_def
  by (induction s rule: EncodeToString.induct) (simp_all add: Let_def enc6_alphabet)

lemma Write_event:
  "event_of (Write env w event) = snd (render env w (prepared env event))"
  unfolding Write_def event_of_def Let_def
  by (simp split: prod.splits sum.splits option.splits)

lemma Write_silent:
  assumes "fst (render env w (prepared env event)) = Inr []"
  shows "Write env w event = (Returns None, w, snd (render env w (prepared env event)), [])"
proof -
  obtain e where r: "render env w (prepared env event) = (Inr [], e)"
    using assms by (cases "render env w (prepared env event)") auto
  show ?thesis unfolding Write_def r by simp
qed

lemma Write_format_error:
  assumes "fst (render env w (prepared env event)) = Inl err"
  shows "Write env w event =
    (Returns (Some (Wrapped ''could not format output'' err)), w,
     snd (render env w (prepared env event)), [])"
proof -
  obtain e where r: "render env w (prepared env event) = (Inl err, e)"
    using assms by (cases "render env w (prepared env event)") auto
  show ?thesis unfolding Write_def r by simp
qed

text \<open>Whatever the sink does, an error that \<open>Write\<close> returns wraps the renderer's or the network's.\<close>

lemma Write_error_origin:
  assumes "outcome_of (Write env w event) = Returns (Some e)"
  shows "(\<exists>ferr. fst (render env w (prepared env event)) = Inl ferr \<and>
            e = Wrapped ''could not format output'' ferr) \<or>
         (\<exists>url body perr. snd (http_Post env url body) = Some perr \<and>
            e = Wrapped ''could not write to output'' perr)"
proof (cases "render env w (prepared env event)")
  case (Pair rendered ev)
  show ?thesis
  proof (cases rendered)
    case (Inl ferr)
    with Pair assms show ?thesis
      by (simp add: Write_def outcome_of_def)
  next
    case (Inr data)
    let ?w = "w\<lparr>AstraMeta := (AstraMeta w)\<lparr>Event := ''alert''\<rparr>\<rparr>"
    let ?body = "json_Marshal_alert env \<lparr> Meta = AstraMeta ?w, Context = data \<rparr>"
    obtain resp perr where p: "http_Post env (AstraWebhook ?w) ?body = (resp, perr)"
      by (cases "http_Post env (AstraWebhook ?w) ?body") auto
    from assms Pair Inr p have "\<exists>pe. perr = Some pe \<and> e = Wrapped ''could not write to output'' pe"
      by (cases perr)
         (auto simp: Write_def outcome_of_def Let_def split: if_splits option.splits)
    with p show ?thesis by (metis snd_conv)
  qed
qed

text \<open>
  A response that is \<^verbatim>\<open>nil\<close> makes the notifier and \<open>Write\<close> panic, and once the alert has
  been answered without an error \<open>Write\<close> returns \<^verbatim>\<open>nil\<close>, whatever the output file does.
\<close>

lemma sendStatusChangeRequest_nil_response:
  assumes "\<And>req. fst (client_Do env req) = None"
  shows "fst (sendStatusChangeRequest env w action) = Panics nil_dereference"
  by (simp add: sendStatusChangeRequest_def Let_def assms split: option.splits)

lemma sendStatusChangeRequest_nil_webhook_response:
  assumes "\<And>url body. fst (http_Post env url body) = None"
  shows "fst (sendStatusChangeRequest env w action) = Panics nil_dereference"
  by (simp add: sendStatusChangeRequest_def Let_def assms split: option.splits)

lemma Write_nil_response:
  assumes "render env w (prepared env event) = (Inr data, e)" and "data \<noteq> []"
    and "fst (http_Post env (AstraWebhook w)
           (json_Marshal_alert env
              \<lparr> Meta = (AstraMeta w)\<lparr>Event := ''alert''\<rparr>, Context = data \<rparr>)) = None"
  shows "outcome_of (Write env w event) = Panics nil_dereference"
  using assms
  by (cases "http_Post env (AstraWebhook w)
           (json_Marshal_alert env
              \<lparr> Meta = (AstraMeta w)\<lparr>Event := ''alert''\<rparr>, Context = data \<rparr>)")
     (simp add: Write_def Let_def outcome_of_def)

lemma Write_write_error_lost:
  assumes "render env w (prepared env event) = (Inr data, e)" and "data \<noteq> []"
    and "http_Post env (AstraWebhook w)
           (json_Marshal_alert env
              \<lparr> Meta = (AstraMeta w)\<lparr>Event := ''alert''\<rparr>, Context = data \<rparr>) = (Some r, None)"
  shows "outcome_of (Write env w event) = Returns None"
  using assms
  by (simp add: Write_def Let_def outcome_of_def split: option.splits)

text \<open>The definitions that running the model on a concrete input unfolds.\<close>

lemmas regexp_eval =
  FindAllFrom.simps ReplaceAllFrom.simps
  FindAllStringSubmatch_def FindStringSubmatch_def headerPattern_def statusPattern_def
  decolorizerRegex_def whole_def start_def consume_def submatches_def group_def HasPrefix_def
  is_word_def is_space_def is_digit_def is_alpha_def ToLower_def lower_def Atoi_def
  max_int64_def decimal_def digit_val_def

lemmas world_eval =
  world_def writer0_def meta0_def finding_def options0_def ok_response_def
  world_disk_full_def world_offline_def world_unconfigured_def world_silent_def
  world_read_only_def options_store_def world_no_env_def

text \<open>The example of the spec.\<close>

lemma extractResponseData_example:
  "extractResponseData raw_example = (''1.1'', 200, [''content-type'' \<mapsto> ''text/html''])"
  by (simp add: raw_example_def extractResponseData_def regexp_eval)

lemma prepared_finding:
  "map_range env = map_range world \<Longrightarrow> TemplatePathURL env = TemplatePathURL world \<Longrightarrow>
   prepared env finding =
   finding\<lparr>Timestamp := time_Now env,
           Response := ''SFRUUCB2ZXJzaW9uOiAxLjEKU3RhdHVzIGNvZGU6IDIwMApjb250ZW50LXR5cGU6IHRleHQvaHRtbAo='',
           Request := ''R0VUIC8gSFRUUC8xLjE=''\<rparr>"
  by (simp add: prepared_def finding_def extractResponseData_example world_def Itoa_def
        digits10.simps enc6_def encodeStd_def)

text \<open>
  Claim C1 asks for a wrapped error that describes the failed write. Line 428 wraps
  \<open>err\<close>, the error of \<^verbatim>\<open>http.Post\<close>, and not \<open>writeErr\<close>: when the alert went through and
  the output file cannot be written, \<open>Write\<close> returns \<^verbatim>\<open>nil\<close>. Here the alert is posted, the
  write is attempted and fails, and the outcome is \<^verbatim>\<open>nil\<close>.
\<close>

theorem Write_drops_write_error:
  "sink_Write world_disk_full (Sink ''out.jsonl'') ''{tech-detect}'' =
     Some (Err ''no space left on device'') \<and>
   outcome_of (Write world_disk_full writer0 finding) = Returns None \<and>
   effects_of (Write world_disk_full writer0 finding) =
     [Locked, Logged (''Raising alert for -> '' @ [LF]),
      Posted ''http://hook/'' ''{tech-detect}'',
      Logged (''Request status received -> 200 OK for alert'' @ [LF]),
      Wrote (Sink ''out.jsonl'') ''{tech-detect}'', Unlocked]"
proof -
  have p: "prepared world_disk_full finding =
      finding\<lparr>Timestamp := time_Now world_disk_full,
           Response := ''SFRUUCB2ZXJzaW9uOiAxLjEKU3RhdHVzIGNvZGU6IDIwMApjb250ZW50LXR5cGU6IHRleHQvaHRtbAo='',
           Request := ''R0VUIC8gSFRUUC8xLjE=''\<rparr>"
    by (rule prepared_finding) (simp_all add: world_eval)
  show ?thesis
    unfolding Write_def p
    by (simp add: render_def outcome_of_def effects_of_def world_eval)
qed

text \<open>
  Claim C2 asks that a failed call, which leaves the response \<^verbatim>\<open>nil\<close>, never makes
  \<open>sendStatusChangeRequest\<close> or \<open>Write\<close> panic. Lines 300, 320 and 421 read the status of the
  response without a test: in a world whose network is down, both panic.
\<close>

theorem notifications_panic_offline:
  "http_Post world_offline (AstraWebhook writer0) ''{tech-detect}'' =
     (None, Some (Err ''connection refused'')) \<and>
   fst (sendStatusChangeRequest world_offline writer0 ''RUNNING'') = Panics nil_dereference \<and>
   fst (sendStatusChangeRequest world_offline writer0 ''COMPLETE'') = Panics nil_dereference \<and>
   outcome_of (Write world_offline writer0 finding) = Panics nil_dereference"
proof -
  have p: "prepared world_offline finding =
      finding\<lparr>Timestamp := time_Now world_offline,
           Response := ''SFRUUCB2ZXJzaW9uOiAxLjEKU3RhdHVzIGNvZGU6IDIwMApjb250ZW50LXR5cGU6IHRleHQvaHRtbAo='',
           Request := ''R0VUIC8gSFRUUC8xLjE=''\<rparr>"
    by (rule prepared_finding) (simp_all add: world_eval)
  have w: "outcome_of (Write world_offline writer0 finding) = Panics nil_dereference"
    unfolding Write_def p
    by (simp add: render_def outcome_of_def world_eval)
  have s: "fst (sendStatusChangeRequest world_offline writer0 action) = Panics nil_dereference"
    for action
    by (simp add: sendStatusChangeRequest_def NewRequest_def Let_def world_eval)
  show ?thesis using w s by (simp add: world_eval)
qed

text \<open>
  Claim C5, amended. The event that \<open>Write\<close> hands to the renderer has the reading of the
  clock for its timestamp (whatever the caller had set), the base64 text of the original
  request for its request, and for its response the base64 text of the canonical
  rendering: the two lines of the preamble and one line for each captured header. Both
  fields are base64 text. The renderer receives the event by pointer, and the event after
  the call, whatever the outcome, is the event as the renderer left it: the three fields
  hold these values after the call when the renderer leaves them alone. The iteration over
  the header map is taken to visit each header once.
\<close>

theorem Write_stamps_and_encodes_amended:
  assumes "enumerates (map_range env (headers_of (Response event))) (headers_of (Response event))"
  shows "event_of (Write env w event) = snd (render env w (prepared env event)) \<and>
         Timestamp (prepared env event) = time_Now env \<and>
         Request (prepared env event) = EncodeToString (Request event) \<and>
         (\<exists>hs. enumerates hs (headers_of (Response event)) \<and>
               Response (prepared env event) =
                 EncodeToString (canonical (version_of (Response event))
                                   (status_of (Response event)) hs)) \<and>
         base64_text (Request (prepared env event)) \<and>
         base64_text (Response (prepared env event)) \<and>
         (keeps (prepared env event) (snd (render env w (prepared env event))) \<longrightarrow>
            Timestamp (event_of (Write env w event)) = time_Now env \<and>
            Request (event_of (Write env w event)) = EncodeToString (Request event) \<and>
            Response (event_of (Write env w event)) = Response (prepared env event))"
proof -
  let ?p = "prepared env event"
  let ?e = "event_of (Write env w event)"
  have e: "?e = snd (render env w ?p)"
    by (rule Write_event)
  have r: "Response ?p = EncodeToString (canonical (version_of (Response event))
      (status_of (Response event)) (map_range env (headers_of (Response event))))"
    by (rule prepared_Response)
  have x: "\<exists>hs. enumerates hs (headers_of (Response event)) \<and>
      Response ?p = EncodeToString (canonical (version_of (Response event))
        (status_of (Response event)) hs)"
    using assms r by blast
  have b: "base64_text (Request ?p)" "base64_text (Response ?p)"
    unfolding r prepared_Request by (rule EncodeToString_alphabet)+
  have k: "Timestamp ?e = time_Now env \<and> Request ?e = EncodeToString (Request event) \<and>
      Response ?e = Response ?p"
    if "keeps ?p (snd (render env w ?p))"
    using that unfolding e keeps_def prepared_Timestamp prepared_Request by simp
  show ?thesis
    using e x b k by (simp add: prepared_Timestamp prepared_Request)
qed

text \<open>
  The finding of the example, written as JSON with its request and response: a timestamp
  of 42 is overwritten by the clock's, and the renderer leaves the three fields alone.
\<close>

theorem Write_stamps_and_encodes_amended_witness:
  "enumerates (map_range world_hidden (headers_of (Response finding)))
     (headers_of (Response finding)) \<and>
   keeps (prepared world_hidden finding)
     (snd (render world_hidden writer_requests (prepared world_hidden finding))) \<and>
   Timestamp finding = 42 \<and>
   Timestamp (event_of (Write world_hidden writer_requests finding)) = 1700000000 \<and>
   Request (event_of (Write world_hidden writer_requests finding)) = ''R0VUIC8gSFRUUC8xLjE='' \<and>
   Response (event_of (Write world_hidden writer_requests finding)) =
     ''SFRUUCB2ZXJzaW9uOiAxLjEKU3RhdHVzIGNvZGU6IDIwMApjb250ZW50LXR5cGU6IHRleHQvaHRtbAo=''"
proof -
  have p: "prepared world_hidden finding =
      finding\<lparr>Timestamp := time_Now world_hidden,
           Response := ''SFRUUCB2ZXJzaW9uOiAxLjEKU3RhdHVzIGNvZGU6IDIwMApjb250ZW50LXR5cGU6IHRleHQvaHRtbAo='',
           Request := ''R0VUIC8gSFRUUC8xLjE=''\<rparr>"
    by (rule prepared_finding) (simp_all add: world_hidden_def)
  have k: "keeps (prepared world_hidden finding)
      (snd (render world_hidden writer_requests (prepared world_hidden finding)))"
    by (simp add: keeps_def render_def world_hidden_def writer_requests_def writer0_def)
  have h: "headers_of (Response finding) = [''content-type'' \<mapsto> ''text/html'']"
    by (simp add: headers_of_def finding_def extractResponseData_example)
  have e: "enumerates (map_range world_hidden (headers_of (Response finding)))
             (headers_of (Response finding))"
    unfolding h by (simp add: enumerates_def world_hidden_def world_def)
  have q: "EncodeToString (Request finding) = ''R0VUIC8gSFRUUC8xLjE=''"
    by (simp add: finding_def enc6_def encodeStd_def)
  have t: "time_Now world_hidden = 1700000000"
    by (simp add: world_hidden_def world_def)
  note c = Write_stamps_and_encodes_amended [OF e, of writer_requests,
    THEN conjunct2, THEN conjunct2, THEN conjunct2, THEN conjunct2, THEN conjunct2,
    THEN conjunct2, THEN mp, OF k]
  have f: "Timestamp finding = 42"
    by (simp add: finding_def)
  have c1: "Timestamp (event_of (Write world_hidden writer_requests finding)) = 1700000000"
    using c t by simp
  have c2: "Request (event_of (Write world_hidden writer_requests finding)) =
      ''R0VUIC8gSFRUUC8xLjE=''"
    using c q by simp
  have c3: "Response (event_of (Write world_hidden writer_requests finding)) =
      ''SFRUUCB2ZXJzaW9uOiAxLjEKU3RhdHVzIGNvZGU6IDIwMApjb250ZW50LXR5cGU6IHRleHQvaHRtbAo=''"
    using c unfolding p by simp
  from e k f c1 c2 c3 show ?thesis
    by (intro conjI)
qed

text \<open>
  The claim as it stands fails where the renderer changes the event. The same finding,
  written as JSON by a writer that was not asked for the request and the response: the
  call returns \<^verbatim>\<open>nil\<close>, and after it the request of the event is empty, not the base64 text
  of the original request, and so is the response.
\<close>

theorem Write_renderer_blanks_request:
  "json writer0 \<and> \<not> jsonReqResp writer0 \<and>
   outcome_of (Write world_hidden writer0 finding) = Returns None \<and>
   EncodeToString (Request finding) = ''R0VUIC8gSFRUUC8xLjE='' \<and>
   Request (event_of (Write world_hidden writer0 finding)) = [] \<and>
   Request (event_of (Write world_hidden writer0 finding)) \<noteq> EncodeToString (Request finding) \<and>
   Response (event_of (Write world_hidden writer0 finding)) = [] \<and>
   Response (event_of (Write world_hidden writer0 finding)) \<noteq>
     Response (prepared world_hidden finding)"
proof -
  have p: "prepared world_hidden finding =
      finding\<lparr>Timestamp := time_Now world_hidden,
           Response := ''SFRUUCB2ZXJzaW9uOiAxLjEKU3RhdHVzIGNvZGU6IDIwMApjb250ZW50LXR5cGU6IHRleHQvaHRtbAo='',
           Request := ''R0VUIC8gSFRUUC8xLjE=''\<rparr>"
    by (rule prepared_finding) (simp_all add: world_hidden_def)
  have q: "EncodeToString (Request finding) = ''R0VUIC8gSFRUUC8xLjE=''"
    by (simp add: finding_def enc6_def encodeStd_def)
  have o: "outcome_of (Write world_hidden writer0 finding) = Returns None"
    unfolding Write_def p
    by (simp add: render_def outcome_of_def world_hidden_def world_eval)
  have e: "event_of (Write world_hidden writer0 finding) =
      snd (render world_hidden writer0 (prepared world_hidden finding))"
    by (rule Write_event)
  have r: "Request (event_of (Write world_hidden writer0 finding)) = []"
      "Response (event_of (Write world_hidden writer0 finding)) = []"
    unfolding e p by (simp_all add: render_def world_hidden_def writer0_def)
  show ?thesis
    using o q r unfolding p by (simp add: writer0_def)
qed

text \<open>
  Claim C10. When the rendering is empty, \<open>Write\<close> returns \<^verbatim>\<open>nil\<close> with no effect at all: the
  mutex is not taken, nothing is posted, nothing is written, and the writer is as it was.
  The event has been changed all the same: the renderer was handed an event with the new
  timestamp and the two encoded texts, and the caller's event is what the renderer left.
\<close>

theorem Write_nothing_rendered:
  assumes "fst (render env w (prepared env event)) = Inr []"
  shows "outcome_of (Write env w event) = Returns None \<and>
         effects_of (Write env w event) = [] \<and>
         writer_of (Write env w event) = w \<and>
         event_of (Write env w event) = snd (render env w (prepared env event)) \<and>
         Timestamp (prepared env event) = time_Now env \<and>
         Request (prepared env event) = EncodeToString (Request event) \<and>
         Response (prepared env event) =
           EncodeToString (canonical (version_of (Response event)) (status_of (Response event))
             (map_range env (headers_of (Response event))))"
  unfolding Write_silent [OF assms] prepared_Timestamp prepared_Request prepared_Response
  by (simp add: outcome_of_def effects_of_def writer_of_def event_of_def)

text \<open>A world whose JSON renderer yields no bytes.\<close>

theorem Write_nothing_rendered_witness:
  "fst (render world_silent writer0 (prepared world_silent finding)) = Inr [] \<and>
   outcome_of (Write world_silent writer0 finding) = Returns None \<and>
   effects_of (Write world_silent writer0 finding) = [] \<and>
   writer_of (Write world_silent writer0 finding) = writer0 \<and>
   Timestamp finding = 42 \<and>
   Timestamp (event_of (Write world_silent writer0 finding)) = 1700000000"
proof -
  have r: "render world_silent writer0 e = (Inr [], e)" for e
    by (simp add: render_def world_silent_def world_def writer0_def)
  have h: "fst (render world_silent writer0 (prepared world_silent finding)) = Inr []"
    unfolding r by simp
  have t: "time_Now world_silent = 1700000000"
    by (simp add: world_silent_def world_def)
  show ?thesis
    using Write_nothing_rendered [OF h] h unfolding r t
    by (simp add: finding_def)
qed

section \<open>Properties of the response normaliser\<close>

text \<open>
  Claim C3 asks for every listed header under its lower-cased name. In the header pattern
  \<^verbatim>\<open>\s*\<close> also matches the end of a line, so a header with an empty value takes the whole
  next line as its value, and the header of that line is lost: here \<^verbatim>\<open>x-empty\<close> is given
  the text \<^verbatim>\<open>Content-Type: text/html\<close>, and \<^verbatim>\<open>content-type\<close> is not in the map.
\<close>

theorem extractResponseData_empty_value:
  "extractResponseData raw_empty_value =
     (''1.1'', 200, [''x-empty'' \<mapsto> ''Content-Type: text/html'']) \<and>
   headers_of raw_empty_value ''content-type'' = None \<and>
   headers_of raw_empty_value ''x-empty'' = Some ''Content-Type: text/html''"
proof -
  have e: "extractResponseData raw_empty_value =
     (''1.1'', 200, [''x-empty'' \<mapsto> ''Content-Type: text/html''])"
    by (simp add: raw_empty_value_def extractResponseData_def regexp_eval)
  show ?thesis unfolding headers_of_def e by simp
qed





section \<open>The normaliser on well-formed responses\<close>

text \<open>
  On a response whose header values are not empty and do not begin with white space the
  two patterns find what the spec says: the version and the code of the status line, and
  every header under its lower-cased name, a later one overriding an earlier one of the
  same name.
\<close>

lemma greedy_first: "lo \<le> k \<Longrightarrow> f k = Some r \<Longrightarrow> greedy f lo k = Some r"
  by (cases k) auto

lemma takeWhile_exact:
  "list_all P xs \<Longrightarrow> ys = [] \<or> \<not> P (hd ys) \<Longrightarrow> takeWhile P (xs @ ys) = xs"
  by (cases ys) (auto simp: list_all_iff takeWhile_append2)

lemma consume_append:
  "rest st = xs @ ys \<Longrightarrow>
   consume (length xs) st =
     st\<lparr> prev := (if xs = [] then prev st else Some (last xs)), rest := ys,
         opened := map (\<lambda>(i, s). (i, s @ xs)) (opened st) \<rparr>"
  by (cases xs rule: rev_cases) (simp_all add: consume_def)

text \<open>A repetition whose class ends where the next item begins takes all of it at once.\<close>

lemma run_Rep:
  assumes "rest st = xs @ ys" and "list_all P xs" and "ys = [] \<or> \<not> P (hd ys)"
    and "lo \<le> length xs"
    and "run is (st\<lparr> prev := (if xs = [] then prev st else Some (last xs)), rest := ys,
                     opened := map (\<lambda>(i, s). (i, s @ xs)) (opened st) \<rparr>) = Some r"
  shows "run (Rep P lo # is) st = Some r"
proof -
  have k: "length (takeWhile P (rest st)) = length xs"
    using assms(1-3) by (simp add: takeWhile_exact)
  show ?thesis
    unfolding run.simps k
    by (rule greedy_first [OF assms(4)]) (simp add: consume_append [OF assms(1)] assms(5))
qed

lemma run_Lit:
  assumes "rest st = s @ ys"
  shows "run (Lit s # is) st =
         run is (st\<lparr> prev := (if s = [] then prev st else Some (last s)), rest := ys,
                     opened := map (\<lambda>(i, t). (i, t @ s)) (opened st) \<rparr>)"
  by (simp add: HasPrefix_def assms consume_append [OF assms])

lemma run_Rep_at:
  assumes "list_all P xs" and "ys = [] \<or> \<not> P (hd ys)" and "lo \<le> length xs"
    and "run is \<lparr> prev = (if xs = [] then b else Some (last xs)), rest = ys,
                   opened = map (\<lambda>(i, s). (i, s @ xs)) os, closed = cs \<rparr> = Some r"
  shows "run (Rep P lo # is) \<lparr> prev = b, rest = xs @ ys, opened = os, closed = cs \<rparr> = Some r"
proof (rule run_Rep [where xs = xs and ys = ys])
  show "run is (\<lparr> prev = b, rest = xs @ ys, opened = os, closed = cs \<rparr>
          \<lparr> prev := (if xs = [] then prev \<lparr> prev = b, rest = xs @ ys, opened = os, closed = cs \<rparr>
                     else Some (last xs)),
            rest := ys,
            opened := map (\<lambda>(i, s). (i, s @ xs))
                        (opened \<lparr> prev = b, rest = xs @ ys, opened = os, closed = cs \<rparr>) \<rparr>) =
        Some r"
    using assms(4) by (cases "xs = []") simp_all
qed (simp_all add: assms(1-3))

lemma run_Lit_at:
  "run (Lit s # is) \<lparr> prev = b, rest = s @ ys, opened = os, closed = cs \<rparr> =
   run is \<lparr> prev = (if s = [] then b else Some (last s)), rest = ys,
            opened = map (\<lambda>(i, t). (i, t @ s)) os, closed = cs \<rparr>"
  using run_Lit [where st = "\<lparr> prev = b, rest = s @ ys, opened = os, closed = cs \<rparr>"
      and s = s and ys = ys]
  by (cases "s = []") (simp_all del: run.simps)

lemma run_Open_at:
  "run (Open i # is) \<lparr> prev = b, rest = t, opened = os, closed = cs \<rparr> =
   run is \<lparr> prev = b, rest = t, opened = (i, []) # os, closed = cs \<rparr>"
  by simp

lemma run_Close_at:
  "run (Close i # is) \<lparr> prev = b, rest = t, opened = os, closed = cs \<rparr> =
   run is \<lparr> prev = b, rest = t, opened = filter (\<lambda>(j, _). j \<noteq> i) os,
            closed = (i, case map_of os i of None \<Rightarrow> [] | Some s \<Rightarrow> s) # cs \<rparr>"
  by simp

lemma run_Bol_at:
  "b = None \<or> b = Some LF \<Longrightarrow>
   run (Bol # is) \<lparr> prev = b, rest = t, opened = os, closed = cs \<rparr> =
   run is \<lparr> prev = b, rest = t, opened = os, closed = cs \<rparr>"
  by simp

lemma run_Bol_fails:
  "b \<noteq> None \<Longrightarrow> b \<noteq> Some LF \<Longrightarrow>
   run (Bol # is) \<lparr> prev = b, rest = t, opened = os, closed = cs \<rparr> = None"
  by (cases b) simp_all

lemma run_Bot_at:
  "run (Bot # is) \<lparr> prev = None, rest = t, opened = os, closed = cs \<rparr> =
   run is \<lparr> prev = None, rest = t, opened = os, closed = cs \<rparr>"
  by simp

lemma run_Nil_at: "run [] st = Some st"
  by simp

lemma header_match:
  assumes n: "name \<noteq> []" "list_all (\<lambda>c. is_word c \<or> c = CHR ''-'') name"
    and v: "value \<noteq> []" "\<not> is_space (hd value)" "list_all (\<lambda>c. c \<noteq> LF \<and> c \<noteq> CR) value"
    and nl: "nls \<noteq> []" "list_all (\<lambda>c. c = LF \<or> c = CR) nls"
    and m: "after = [] \<or> \<not> (hd after = LF \<or> hd after = CR)"
    and b: "b = None \<or> b = Some LF"
  shows "run (whole headerPattern) (start b (name @ '': '' @ value @ nls @ after)) =
         Some \<lparr> prev = Some (last nls), rest = after, opened = [],
                closed = [(0, name @ '': '' @ value @ nls), (2, value), (1, name)] \<rparr>"
    (is "_ = Some ?final")
proof -
  let ?wd = "\<lambda>c. is_word c \<or> c = CHR ''-''"
  let ?nonl = "\<lambda>c. c \<noteq> LF \<and> c \<noteq> CR"
  let ?nl = "\<lambda>c. c = LF \<or> c = CR"
  have s5: "run [Rep ?nl 1, Close 0]
      \<lparr> prev = Some (last value), rest = nls @ after,
        opened = [(0, name @ '': '' @ value)], closed = [(2, value), (1, name)] \<rparr> = Some ?final"
    by (rule run_Rep_at) (use nl m in \<open>simp_all add: Suc_le_eq\<close>)
  have s4: "run [Rep ?nonl 0, Close 2, Rep ?nl 1, Close 0]
      \<lparr> prev = Some CHR '' '', rest = value @ (nls @ after),
        opened = [(2, []), (0, name @ '': '')], closed = [(1, name)] \<rparr> = Some ?final"
  proof (rule run_Rep_at)
    show "nls @ after = [] \<or> \<not> (hd (nls @ after) \<noteq> LF \<and> hd (nls @ after) \<noteq> CR)"
      using nl by (cases nls) auto
  qed (use v s5 in simp_all)
  have s3: "run [Rep is_space 0, Open 2, Rep ?nonl 0, Close 2, Rep ?nl 1, Close 0]
      \<lparr> prev = Some CHR '':'', rest = '' '' @ (value @ (nls @ after)),
        opened = [(0, name @ '':'')], closed = [(1, name)] \<rparr> = Some ?final"
  proof (rule run_Rep_at)
    show "value @ nls @ after = [] \<or> \<not> is_space (hd (value @ nls @ after))"
      using v by (cases "value") auto
  qed (use s4 in \<open>simp_all add: is_space_def\<close>)
  have s2: "run [Close 1, Lit '':'', Rep is_space 0, Open 2, Rep ?nonl 0, Close 2, Rep ?nl 1, Close 0]
      \<lparr> prev = Some (last name), rest = '':'' @ ('' '' @ (value @ (nls @ after))),
        opened = [(1, name), (0, name)], closed = [] \<rparr> = Some ?final"
    unfolding run_Close_at run_Lit_at using s3 by simp
  have s1: "run [Rep ?wd 1, Close 1, Lit '':'', Rep is_space 0, Open 2, Rep ?nonl 0, Close 2,
                 Rep ?nl 1, Close 0]
      \<lparr> prev = b, rest = name @ ('':'' @ ('' '' @ (value @ (nls @ after)))),
        opened = [(1, []), (0, [])], closed = [] \<rparr> = Some ?final"
  proof (rule run_Rep_at)
    show "'':'' @ '' '' @ value @ nls @ after = [] \<or>
          \<not> (is_word (hd ('':'' @ '' '' @ value @ nls @ after)) \<or>
             hd ('':'' @ '' '' @ value @ nls @ after) = CHR ''-'')"
      by (simp add: is_word_def is_digit_def is_alpha_def)
  qed (use n s2 in \<open>simp_all add: Suc_le_eq\<close>)
  have t: "name @ '': '' @ value @ nls @ after =
           name @ ('':'' @ ('' '' @ (value @ (nls @ after))))"
    by simp
  show ?thesis
    unfolding headerPattern_def whole_def start_def t
    using s1 b by (simp del: run.simps(6))
qed

lemma word_not_newline: "is_word c \<or> c = CHR ''-'' \<Longrightarrow> c \<noteq> LF \<and> c \<noteq> CR"
  by (auto simp: is_word_def is_digit_def is_alpha_def)

lemma header_no_match_bol:
  "b \<noteq> None \<Longrightarrow> b \<noteq> Some LF \<Longrightarrow> run (whole headerPattern) (start b s) = None"
  by (cases b) (simp_all add: headerPattern_def whole_def start_def)

lemma header_no_match_char:
  assumes "s = [] \<or> \<not> (is_word (hd s) \<or> hd s = CHR ''-'')"
  shows "run (whole headerPattern) (start b s) = None"
proof -
  have "takeWhile (\<lambda>c. is_word c \<or> c = CHR ''-'') s = []"
    using assms by (cases s) auto
  then show ?thesis
    by (simp add: headerPattern_def whole_def start_def)
qed

lemma search_here:
  "s \<noteq> [] \<Longrightarrow> run (whole is) (start b s) = Some st \<Longrightarrow> search is b s = Some ([], st)"
  by (cases s) simp_all

lemma search_skip_line:
  "LF \<notin> set xs \<Longrightarrow> b \<noteq> None \<Longrightarrow> b \<noteq> Some LF \<Longrightarrow>
   search headerPattern b (xs @ LF # t) =
   map_option (\<lambda>(skipped, st). (xs @ LF # skipped, st)) (search headerPattern (Some LF) t)"
proof (induction xs arbitrary: b)
  case Nil
  then show ?case by (simp add: header_no_match_bol)
next
  case (Cons x xs)
  have "search headerPattern (Some x) (xs @ LF # t) =
      map_option (\<lambda>(skipped, st). (xs @ LF # skipped, st)) (search headerPattern (Some LF) t)"
    using Cons.prems by (intro Cons.IH) auto
  then show ?case
    using Cons.prems
    by (cases "search headerPattern (Some LF) t") (auto simp: header_no_match_bol)
qed

lemma first_header:
  assumes "header_name n" and "header_value v" and "list_all (\<lambda>h. header_name (fst h)) hs"
    and "body = [] \<or> \<not> (hd body = LF \<or> hd body = CR)"
  shows "\<exists>w. run (whole headerPattern)
               (start (Some LF) (raw_header (n, v) @ concat (map raw_header hs) @ [CR, LF] @ body)) =
             Some \<lparr> prev = Some LF, rest = remainder hs body, opened = [],
                    closed = [(0, w), (2, v), (1, n)] \<rparr>"
proof (cases hs)
  case Nil
  have "run (whole headerPattern) (start (Some LF) (n @ '': '' @ v @ [CR, LF, CR, LF] @ body)) =
      Some \<lparr> prev = Some (last [CR, LF, CR, LF]), rest = body, opened = [],
             closed = [(0, n @ '': '' @ v @ [CR, LF, CR, LF]), (2, v), (1, n)] \<rparr>"
    using assms by (intro header_match) (simp_all add: header_name_def header_value_def)
  then show ?thesis
    using Nil by (simp add: raw_header_def remainder_def)
next
  case (Cons h hs')
  let ?after = "concat (map raw_header hs) @ [CR, LF] @ body"
  have "fst h \<noteq> []" "is_word (hd (fst h)) \<or> hd (fst h) = CHR ''-''"
    using assms(3) Cons by (cases "fst h"; simp add: header_name_def)+
  then have a: "?after = [] \<or> \<not> (hd ?after = LF \<or> hd ?after = CR)"
    using Cons word_not_newline [of "hd (fst h)"] by (simp add: raw_header_def)
  have "run (whole headerPattern) (start (Some LF) (n @ '': '' @ v @ [CR, LF] @ ?after)) =
      Some \<lparr> prev = Some (last [CR, LF]), rest = ?after, opened = [],
             closed = [(0, n @ '': '' @ v @ [CR, LF]), (2, v), (1, n)] \<rparr>"
    using assms(1,2) a by (intro header_match) (simp_all add: header_name_def header_value_def)
  then show ?thesis
    using Cons by (simp add: raw_header_def remainder_def)
qed

lemma length_remainder:
  "length (remainder hs body) \<le> length (concat (map raw_header hs) @ [CR, LF] @ body)"
  by (simp add: remainder_def)

lemma submatches_header:
  "submatches headerPattern \<lparr> prev = b, rest = t, opened = os,
      closed = [(0, w), (2, v), (1, n)] \<rparr> = [w, n, v]"
  by (simp add: submatches_def whole_def headerPattern_def group_def)

lemma FindAllFrom_here:
  assumes "s \<noteq> []" and "run (whole is) (start b s) = Some st" and "length (rest st) < length s"
  shows "FindAllFrom is b s = submatches is st # FindAllFrom is (prev st) (rest st)"
  by (subst FindAllFrom.simps) (simp add: search_here [OF assms(1,2)] assms(3))

lemma FindAllFrom_none: "search is b s = None \<Longrightarrow> FindAllFrom is b s = []"
  by (subst FindAllFrom.simps) simp

lemma found_remainder:
  assumes "wellformed hs" and "plain_body body"
  shows "map fields (FindAllFrom headerPattern (Some LF) (remainder hs body)) = hs"
  using assms(1)
proof (induction hs)
  case Nil
  then show ?case
    using assms(2) by (simp add: remainder_def plain_body_def FindAllFrom_none)
next
  case (Cons h hs)
  obtain n v where h: "h = (n, v)" by (cases h)
  let ?t = "raw_header (n, v) @ concat (map raw_header hs) @ [CR, LF] @ body"
  have wf: "header_name n" "header_value v" "list_all (\<lambda>h. header_name (fst h)) hs"
      "wellformed hs"
    using Cons.prems h by (simp_all add: wellformed_def list_all_iff)
  obtain w where r: "run (whole headerPattern) (start (Some LF) ?t) =
      Some \<lparr> prev = Some LF, rest = remainder hs body, opened = [],
             closed = [(0, w), (2, v), (1, n)] \<rparr>"
    using first_header [OF wf(1-3)] assms(2) unfolding plain_body_def by blast
  have ne: "?t \<noteq> []" by (simp add: raw_header_def)
  have len: "length (remainder hs body) < length ?t"
    using length_remainder [of hs body] by (simp add: raw_header_def)
  have "FindAllFrom headerPattern (Some LF) ?t =
      [w, n, v] # FindAllFrom headerPattern (Some LF) (remainder hs body)"
    using FindAllFrom_here [OF ne r] len unfolding submatches_header by simp
  then show ?case
    using Cons.IH [OF wf(4)] h by (simp add: remainder_def fields_def)
qed

lemma FindAllFrom_found:
  assumes "search is b s = Some (skipped, st)" and "length (rest st) < length s"
  shows "FindAllFrom is b s = submatches is st # FindAllFrom is (prev st) (rest st)"
  by (subst FindAllFrom.simps) (simp add: assms)

lemma status_no_header:
  "run (whole headerPattern) (start None (''HTTP/'' @ r)) = None"
  by (simp add: headerPattern_def whole_def start_def consume_def HasPrefix_def
        is_word_def is_digit_def is_alpha_def)

lemma search_status_line:
  assumes "LF \<notin> set line"
  shows "search headerPattern None (''HTTP/'' @ line @ LF # t) =
         map_option (\<lambda>(skipped, st). (''HTTP/'' @ line @ LF # skipped, st))
           (search headerPattern (Some LF) t)"
proof -
  have "search headerPattern (Some CHR ''H'') ((''TTP/'' @ line) @ LF # t) =
      map_option (\<lambda>(skipped, st). ((''TTP/'' @ line) @ LF # skipped, st))
        (search headerPattern (Some LF) t)"
    using assms by (intro search_skip_line) simp_all
  then show ?thesis
    using status_no_header [of "line @ LF # t"]
    by (cases "search headerPattern (Some LF) t") auto
qed

lemma found_all:
  assumes "wellformed hs" and "plain_body body" and "LF \<notin> set line"
  shows "map fields (FindAllFrom headerPattern None
           (''HTTP/'' @ line @ LF # concat (map raw_header hs) @ [CR, LF] @ body)) = hs"
proof (cases hs)
  case Nil
  have "search headerPattern (Some LF) (CR # LF # body) = None"
    using assms(2) header_no_match_char [of "CR # LF # body" "Some LF"]
      header_no_match_bol [of "Some CR" "LF # body"]
    by (simp add: plain_body_def is_word_def is_digit_def is_alpha_def)
  then have "search headerPattern None (''HTTP/'' @ line @ LF # CR # LF # body) = None"
    unfolding search_status_line [OF assms(3)] by simp
  then show ?thesis
    using Nil by (simp add: FindAllFrom_none)
next
  case (Cons h hs')
  obtain n v where h: "h = (n, v)" by (cases h)
  let ?t = "raw_header (n, v) @ concat (map raw_header hs') @ [CR, LF] @ body"
  have wf: "header_name n" "header_value v" "list_all (\<lambda>h. header_name (fst h)) hs'"
      "wellformed hs'"
    using assms(1) Cons h by (simp_all add: wellformed_def list_all_iff)
  obtain w where r: "run (whole headerPattern) (start (Some LF) ?t) =
      Some \<lparr> prev = Some LF, rest = remainder hs' body, opened = [],
             closed = [(0, w), (2, v), (1, n)] \<rparr>" (is "_ = Some ?st")
    using first_header [OF wf(1-3)] assms(2) unfolding plain_body_def by blast
  have ne: "?t \<noteq> []" by (simp add: raw_header_def)
  have "search headerPattern None (''HTTP/'' @ line @ LF # ?t) =
      Some (''HTTP/'' @ line @ [LF], ?st)"
    unfolding search_status_line [OF assms(3)] search_here [OF ne r] by simp
  moreover have "length (rest ?st) < length (''HTTP/'' @ line @ LF # ?t)"
    using length_remainder [of hs' body] by (simp add: raw_header_def)
  ultimately have "FindAllFrom headerPattern None (''HTTP/'' @ line @ LF # ?t) =
      submatches headerPattern ?st # FindAllFrom headerPattern (prev ?st) (rest ?st)"
    by (rule FindAllFrom_found)
  then have "FindAllFrom headerPattern None (''HTTP/'' @ line @ LF # ?t) =
      [w, n, v] # FindAllFrom headerPattern (Some LF) (remainder hs' body)"
    unfolding submatches_header by simp
  then show ?thesis
    using found_remainder [OF wf(4) assms(2)] Cons h by (simp add: fields_def)
qed

lemma closed_consume: "closed (consume k st) = closed st"
  by (simp add: consume_def)

lemma run_tail:
  assumes "lo \<le> length (takeWhile P (rest st))"
  shows "\<exists>st' w. run [Rep P lo, Rep Q 0, Close 0] st = Some st' \<and>
                  closed st' = (0, w) # closed st"
proof -
  let ?st1 = "consume (length (takeWhile P (rest st))) st"
  let ?st2 = "consume (length (takeWhile Q (rest ?st1))) ?st1"
  let ?w = "case map_of (opened ?st2) 0 of None \<Rightarrow> [] | Some s \<Rightarrow> s"
  let ?st3 = "?st2\<lparr>opened := filter (\<lambda>(j, _). j \<noteq> 0) (opened ?st2),
                    closed := (0, ?w) # closed ?st2\<rparr>"
  have a: "run [Close 0] ?st2 = Some ?st3" by simp
  have b: "run [Rep Q 0, Close 0] ?st1 = Some ?st3"
    by (subst run.simps(6)) (rule greedy_first, simp, rule a)
  have c: "run [Rep P lo, Rep Q 0, Close 0] st = Some ?st3"
    by (subst run.simps(6)) (rule greedy_first, rule assms, rule b)
  have "closed ?st3 = (0, ?w) # closed st"
    by (simp add: closed_consume)
  with c show ?thesis by blast
qed

lemma digit_not_space: "is_digit c \<Longrightarrow> \<not> is_space c"
  by (auto simp: is_digit_def is_space_def)

lemma status_match:
  assumes "digits v1" and "digits v2" and "digits code"
  shows "\<exists>st w. run (whole statusPattern)
                  (start None (''HTTP/'' @ v1 @ ''.'' @ v2 @ '' '' @ code @ '' '' @ t)) = Some st \<and>
                closed st = [(0, w), (2, code), (1, v1 @ ''.'' @ v2)]"
proof -
  let ?any = "\<lambda>c. c \<noteq> LF"
  have d: "v1 \<noteq> []" "list_all is_digit v1" "v2 \<noteq> []" "list_all is_digit v2"
      "code \<noteq> []" "list_all is_digit code"
    using assms by (simp_all add: digits_def)
  have "Suc 0 \<le> length (takeWhile is_space ('' '' @ t))"
    by (simp add: is_space_def)
  from run_tail [where st = "\<lparr> prev = Some (last code), rest = '' '' @ t,
        opened = [(0, ''HTTP/'' @ v1 @ ''.'' @ v2 @ '' '' @ code)],
        closed = [(2, code), (1, v1 @ ''.'' @ v2)] \<rparr>"
      and P = is_space and lo = "Suc 0" and Q = ?any]
  obtain st w where
    s6: "run [Rep is_space (Suc 0), Rep ?any 0, Close 0]
      \<lparr> prev = Some (last code), rest = '' '' @ t,
        opened = [(0, ''HTTP/'' @ v1 @ ''.'' @ v2 @ '' '' @ code)],
        closed = [(2, code), (1, v1 @ ''.'' @ v2)] \<rparr> = Some st" and
    cl: "closed st = [(0, w), (2, code), (1, v1 @ ''.'' @ v2)]"
    by (auto simp: is_space_def)
  have s5: "run [Rep is_digit 1, Close 2, Rep is_space 1, Rep ?any 0, Close 0]
      \<lparr> prev = Some CHR '' '', rest = code @ ('' '' @ t),
        opened = [(2, []), (0, ''HTTP/'' @ v1 @ ''.'' @ v2 @ '' '')],
        closed = [(1, v1 @ ''.'' @ v2)] \<rparr> = Some st"
    by (rule run_Rep_at)
       (use d s6 in \<open>simp_all add: Suc_le_eq is_digit_def del: run.simps(6)\<close>)
  have s4: "run [Rep is_space 1, Open 2, Rep is_digit 1, Close 2, Rep is_space 1, Rep ?any 0,
                 Close 0]
      \<lparr> prev = Some (last v2), rest = '' '' @ (code @ ('' '' @ t)),
        opened = [(0, ''HTTP/'' @ v1 @ ''.'' @ v2)],
        closed = [(1, v1 @ ''.'' @ v2)] \<rparr> = Some st"
  proof (rule run_Rep_at)
    show "code @ '' '' @ t = [] \<or> \<not> is_space (hd (code @ '' '' @ t))"
      using d(5,6) by (cases code) (simp_all add: digit_not_space)
  qed (use s5 in \<open>simp_all add: is_space_def del: run.simps(6)\<close>)
  have s3: "run [Rep is_digit 1, Close 1, Rep is_space 1, Open 2, Rep is_digit 1, Close 2,
                 Rep is_space 1, Rep ?any 0, Close 0]
      \<lparr> prev = Some CHR ''.'', rest = v2 @ ('' '' @ (code @ ('' '' @ t))),
        opened = [(1, v1 @ ''.''), (0, ''HTTP/'' @ v1 @ ''.'')], closed = [] \<rparr> = Some st"
    by (rule run_Rep_at)
       (use d s4 in \<open>simp_all add: Suc_le_eq is_digit_def del: run.simps(6)\<close>)
  have s2: "run [Rep is_digit 1, Lit ''.'', Rep is_digit 1, Close 1, Rep is_space 1, Open 2,
                 Rep is_digit 1, Close 2, Rep is_space 1, Rep ?any 0, Close 0]
      \<lparr> prev = Some CHR ''/'', rest = v1 @ (''.'' @ (v2 @ ('' '' @ (code @ ('' '' @ t))))),
        opened = [(1, []), (0, ''HTTP/'')], closed = [] \<rparr> = Some st"
  proof (rule run_Rep_at)
    show "run [Lit ''.'', Rep is_digit 1, Close 1, Rep is_space 1, Open 2,
                 Rep is_digit 1, Close 2, Rep is_space 1, Rep ?any 0, Close 0]
      \<lparr> prev = (if v1 = [] then Some CHR ''/'' else Some (last v1)),
        rest = ''.'' @ (v2 @ ('' '' @ (code @ ('' '' @ t)))),
        opened = map (\<lambda>(i, s). (i, s @ v1)) [(1, []), (0, ''HTTP/'')], closed = [] \<rparr> = Some st"
      unfolding run_Lit_at using s3 d(1) by simp
  qed (use d in \<open>simp_all add: Suc_le_eq is_digit_def\<close>)
  have t: "''HTTP/'' @ v1 @ ''.'' @ v2 @ '' '' @ code @ '' '' @ t =
      ''HTTP/'' @ (v1 @ (''.'' @ (v2 @ ('' '' @ (code @ ('' '' @ t))))))"
    by simp
  have "run (whole statusPattern)
      (start None (''HTTP/'' @ v1 @ ''.'' @ v2 @ '' '' @ code @ '' '' @ t)) = Some st"
    unfolding statusPattern_def whole_def start_def t append_Cons append_Nil
      run_Open_at run_Bot_at
    unfolding run_Lit_at [of "''HTTP/''", unfolded append_Cons append_Nil] run_Open_at
    using s2 by simp
  with cl show ?thesis by blast
qed

lemma headers_fold:
  "foldl (\<lambda>headers match. headers(ToLower (match ! 1) \<mapsto> match ! 2)) m ms =
   m ++ map_of (rev (map (\<lambda>h. (ToLower (fst h), snd h)) (map fields ms)))"
  by (induction ms arbitrary: m) (simp_all add: fields_def)

lemma digits_no_newline: "digits s \<Longrightarrow> LF \<notin> set s"
proof
  assume "digits s" and "LF \<in> set s"
  then have "is_digit LF" by (simp add: digits_def list_all_iff)
  then show False by (simp add: is_digit_def)
qed

lemma Atoi_digits:
  assumes "digits s" and "decimal s \<le> max_int64"
  shows "Atoi s = (decimal s, None)"
proof -
  obtain c cs where s: "s = c # cs" "is_digit c"
    using assms(1) by (cases s) (auto simp: digits_def)
  have p: "HasPrefix s ''-'' = False" "HasPrefix s ''+'' = False"
    using s by (auto simp: HasPrefix_def is_digit_def)
  have d: "s \<noteq> []" "list_all is_digit s"
    using assms(1) by (simp_all add: digits_def)
  show ?thesis
    unfolding Atoi_def Let_def p using assms(2) by (simp add: d)
qed

lemma status_found:
  assumes "digits v1" and "digits v2" and "digits code"
  shows "\<exists>w. FindStringSubmatch statusPattern
               (''HTTP/'' @ v1 @ ''.'' @ v2 @ '' '' @ code @ '' '' @ t) =
             [w, v1 @ ''.'' @ v2, code]"
proof -
  obtain st w where
    r: "run (whole statusPattern)
          (start None (''HTTP/'' @ v1 @ ''.'' @ v2 @ '' '' @ code @ '' '' @ t)) = Some st" and
    c: "closed st = [(0, w), (2, code), (1, v1 @ ''.'' @ v2)]"
    using status_match [OF assms] by blast
  have "search statusPattern None (''HTTP/'' @ v1 @ ''.'' @ v2 @ '' '' @ code @ '' '' @ t) =
      Some ([], st)"
    by (rule search_here [OF _ r]) simp
  then show ?thesis
    by (simp add: FindStringSubmatch_def submatches_def whole_def statusPattern_def
          group_def c)
qed

lemma extractResponseData_wellformed:
  assumes "digits v1" and "digits v2" and "digits code" and "decimal code \<le> max_int64"
    and "LF \<notin> set reason" and "wellformed hs" and "plain_body body"
  shows "extractResponseData
           (''HTTP/'' @ v1 @ ''.'' @ v2 @ '' '' @ code @ '' '' @ reason @ [CR, LF] @
            concat (map raw_header hs) @ [CR, LF] @ body) =
         (v1 @ ''.'' @ v2, decimal code,
          map_of (rev (map (\<lambda>h. (ToLower (fst h), snd h)) hs)))"
proof -
  let ?line = "v1 @ ''.'' @ v2 @ '' '' @ code @ '' '' @ reason @ [CR]"
  let ?raw = "''HTTP/'' @ v1 @ ''.'' @ v2 @ '' '' @ code @ '' '' @ reason @ [CR, LF] @
            concat (map raw_header hs) @ [CR, LF] @ body"
  have l: "LF \<notin> set ?line"
    using assms(1-3,5) by (simp add: digits_no_newline)
  have raw: "?raw = ''HTTP/'' @ ?line @ LF # concat (map raw_header hs) @ [CR, LF] @ body"
    by simp
  have h: "map fields (FindAllStringSubmatch headerPattern ?raw) = hs"
    unfolding FindAllStringSubmatch_def raw by (rule found_all [OF assms(6,7) l])
  obtain w where s: "FindStringSubmatch statusPattern ?raw = [w, v1 @ ''.'' @ v2, code]"
    using status_found [OF assms(1-3)] by blast
  show ?thesis
    unfolding extractResponseData_def Let_def s headers_fold h
    by (simp add: Atoi_digits [OF assms(3,4)])
qed

text \<open>The example of the spec is such a response.\<close>

lemma plain_body_example: "plain_body ''<html/>''"
  by (simp add: plain_body_def headerPattern_def whole_def start_def consume_def HasPrefix_def
        is_word_def is_digit_def is_alpha_def)

lemma extractResponseData_example_wellformed:
  "extractResponseData raw_example = (''1.1'', 200, [''content-type'' \<mapsto> ''text/html''])"
proof -
  have "extractResponseData
           (''HTTP/'' @ ''1'' @ ''.'' @ ''1'' @ '' '' @ ''200'' @ '' '' @ ''OK'' @ [CR, LF] @
            concat (map raw_header [(''Content-Type'', ''text/html'')]) @ [CR, LF] @ ''<html/>'') =
         (''1'' @ ''.'' @ ''1'', decimal ''200'',
          map_of (rev (map (\<lambda>h. (ToLower (fst h), snd h)) [(''Content-Type'', ''text/html'')])))"
    by (rule extractResponseData_wellformed)
       (simp_all add: digits_def is_digit_def decimal_def digit_val_def max_int64_def wellformed_def
          header_name_def header_value_def is_word_def is_alpha_def is_space_def
          plain_body_example)
  then show ?thesis
    by (simp add: raw_example_def raw_header_def decimal_def digit_val_def ToLower_def lower_def)
qed

section \<open>Properties of the trace and error logs\<close>

text \<open>
  Claim C8. \<open>Request_log\<close> does nothing when neither a trace sink nor an error sink is
  configured. Otherwise, \<open>data\<close> being the encoding of the record, it writes \<open>data\<close> to the
  trace sink when there is one, and then the same \<open>data\<close> to the error sink when there is
  one and the error passed is not \<^verbatim>\<open>nil\<close>, and it writes nothing else. The error field
  of the record is the message of the root cause of the error, and \<^verbatim>\<open>none\<close> for \<^verbatim>\<open>nil\<close>.
  The encoder belongs to the environment and is taken to succeed on the record.
\<close>

theorem Request_log_records:
  "(traceFile w = None \<and> errorFile w = None \<longrightarrow>
      Request_log env w templatePath input requestType requestErr = []) \<and>
   (jsoniter_Marshal env
      \<lparr> log_Template = templatePath, log_Input = input,
        log_Error = (case requestErr of None \<Rightarrow> ''none'' | Some e \<Rightarrow> Error (root_cause e)),
        log_Type = requestType \<rparr> = Inr data \<longrightarrow>
      Request_log env w templatePath input requestType requestErr =
        (case traceFile w of Some file \<Rightarrow> [Wrote file data] | None \<Rightarrow> []) @
        (case errorFile w of
           Some file \<Rightarrow> if requestErr \<noteq> None then [Wrote file data] else []
         | None \<Rightarrow> []))"
  by (cases requestErr)
     (auto simp: Request_log_def UnwrapError_def Let_def split: option.splits)

text \<open>A writer with no sink, and a writer with both, for a wrapped error and for none.\<close>

theorem Request_log_records_witness:
  "Request_log world (writer0\<lparr>traceFile := None, errorFile := None\<rparr>) ''t.yaml''
     ''http://example.com'' ''http'' (Some (Wrapped ''could not dial'' (Err ''timeout''))) = [] \<and>
   Request_log world writer0 ''t.yaml'' ''http://example.com'' ''http''
     (Some (Wrapped ''could not dial'' (Err ''timeout''))) =
     [Wrote (Sink ''trace.log'') ''timeout'', Wrote (Sink ''error.log'') ''timeout''] \<and>
   Request_log world writer0 ''t.yaml'' ''http://example.com'' ''http'' None =
     [Wrote (Sink ''trace.log'') ''none'']"
proof -
  have m: "jsoniter_Marshal world r = Inr (log_Error r)" for r
    by (simp add: world_def)
  show ?thesis
    using Request_log_records [of "writer0\<lparr>traceFile := None, errorFile := None\<rparr>" world
        "''t.yaml''" "''http://example.com''" "''http''"
        "Some (Wrapped ''could not dial'' (Err ''timeout''))" "''timeout''"]
      Request_log_records [of writer0 world "''t.yaml''" "''http://example.com''" "''http''"
        "Some (Wrapped ''could not dial'' (Err ''timeout''))" "''timeout''"]
      Request_log_records [of writer0 world "''t.yaml''" "''http://example.com''" "''http''"
        None "''none''"]
    by (simp add: m writer0_def)
qed

section \<open>Properties of the construction\<close>

lemma NewStandardWriter_output_fails:
  assumes "Output options \<noteq> []"
    and "newFileOutputWriter env (Output options) (Resume options \<noteq> []) = Inl err"
  shows "fst (NewStandardWriter env options) =
         Returns (None, Some (Wrapped ''could not create output file'' err))"
  using assms by (simp add: NewStandardWriter_def Let_def)

lemma NewStandardWriter_trace_fails:
  assumes "\<not> cannot_open env options (Output options)"
    and "TraceLogFile options \<noteq> []"
    and "newFileOutputWriter env (TraceLogFile options) (Resume options \<noteq> []) = Inl err"
  shows "fst (NewStandardWriter env options) =
         Returns (None, Some (Wrapped ''could not create output file'' err))"
  using assms
  by (cases "newFileOutputWriter env (Output options) (Resume options \<noteq> [])")
     (simp_all add: NewStandardWriter_def Let_def cannot_open_def)

lemma NewStandardWriter_error_fails:
  assumes "\<not> cannot_open env options (Output options)"
    and "\<not> cannot_open env options (TraceLogFile options)"
    and "ErrorLogFile options \<noteq> []"
    and "newFileOutputWriter env (ErrorLogFile options) (Resume options \<noteq> []) = Inl err"
  shows "fst (NewStandardWriter env options) =
         Returns (None, Some (Wrapped ''could not create error file'' err))"
  using assms
  by (cases "newFileOutputWriter env (Output options) (Resume options \<noteq> [])";
      cases "newFileOutputWriter env (TraceLogFile options) (Resume options \<noteq> [])")
     (simp_all add: NewStandardWriter_def Let_def cannot_open_def)

lemma opens_sink:
  assumes "\<not> cannot_open env options path"
  shows "\<exists>file. (if path \<noteq> []
                 then map_sum id Some (newFileOutputWriter env path (Resume options \<noteq> []))
                 else Inr None) = Inr file"
  using assms
  by (cases "newFileOutputWriter env path (Resume options \<noteq> [])")
     (auto simp: cannot_open_def)

lemma NewStandardWriter_folder_fails:
  assumes "\<not> cannot_open env options (Output options)"
    and "\<not> cannot_open env options (TraceLogFile options)"
    and "\<not> cannot_open env options (ErrorLogFile options)"
    and "cannot_make_folder env options"
  shows "fst (NewStandardWriter env options) = Exits 1"
proof -
  obtain f1 where
    o: "(if Output options \<noteq> []
         then map_sum id Some (newFileOutputWriter env (Output options) (Resume options \<noteq> []))
         else Inr None) = Inr f1"
    using opens_sink [OF assms(1)] by blast
  obtain f2 where
    t: "(if TraceLogFile options \<noteq> []
         then map_sum id Some (newFileOutputWriter env (TraceLogFile options) (Resume options \<noteq> []))
         else Inr None) = Inr f2"
    using opens_sink [OF assms(2)] by blast
  obtain f3 where
    e: "(if ErrorLogFile options \<noteq> []
         then map_sum id Some (newFileOutputWriter env (ErrorLogFile options) (Resume options \<noteq> []))
         else Inr None) = Inr f3"
    using opens_sink [OF assms(3)] by blast
  show ?thesis
    unfolding NewStandardWriter_def Let_def o t e
    using assms(4) by (simp add: cannot_make_folder_def)
qed

lemma NewStandardWriter_env_missing:
  assumes "\<not> cannot_open env options (Output options)"
    and "\<not> cannot_open env options (TraceLogFile options)"
    and "\<not> cannot_open env options (ErrorLogFile options)"
    and "\<not> cannot_make_folder env options"
    and "\<not> env_complete env"
  shows "\<exists>msg. fst (NewStandardWriter env options) = Panics msg"
proof -
  obtain f1 where
    o: "(if Output options \<noteq> []
         then map_sum id Some (newFileOutputWriter env (Output options) (Resume options \<noteq> []))
         else Inr None) = Inr f1"
    using opens_sink [OF assms(1)] by blast
  obtain f2 where
    t: "(if TraceLogFile options \<noteq> []
         then map_sum id Some (newFileOutputWriter env (TraceLogFile options) (Resume options \<noteq> []))
         else Inr None) = Inr f2"
    using opens_sink [OF assms(2)] by blast
  obtain f3 where
    e: "(if ErrorLogFile options \<noteq> []
         then map_sum id Some (newFileOutputWriter env (ErrorLogFile options) (Resume options \<noteq> []))
         else Inr None) = Inr f3"
    using opens_sink [OF assms(3)] by blast
  show ?thesis
    unfolding NewStandardWriter_def Let_def o t e
    using assms(4,5)
    by (auto simp: cannot_make_folder_def env_complete_def required_env_def
          split: option.splits)
qed

text \<open>
  Claim C9, as amended: the three checks are made in this order, and the first that fails
  decides. If a configured output, trace or error path cannot be opened, the constructor
  returns no writer and the error of the open, wrapped. Otherwise, if the folder of the
  debug store is wanted, missing and cannot be made, the process exits. Otherwise, if one
  of the six variables is absent, the constructor panics.
\<close>

theorem NewStandardWriter_failures:
  "(cannot_open env options (Output options) \<or> cannot_open env options (TraceLogFile options) \<or>
    cannot_open env options (ErrorLogFile options) \<longrightarrow>
      (\<exists>msg path err.
         path \<in> {Output options, TraceLogFile options, ErrorLogFile options} \<and>
         newFileOutputWriter env path (Resume options \<noteq> []) = Inl err \<and>
         fst (NewStandardWriter env options) = Returns (None, Some (Wrapped msg err)))) \<and>
   (\<not> cannot_open env options (Output options) \<and>
    \<not> cannot_open env options (TraceLogFile options) \<and>
    \<not> cannot_open env options (ErrorLogFile options) \<and> cannot_make_folder env options \<longrightarrow>
      fst (NewStandardWriter env options) = Exits 1) \<and>
   (\<not> cannot_open env options (Output options) \<and>
    \<not> cannot_open env options (TraceLogFile options) \<and>
    \<not> cannot_open env options (ErrorLogFile options) \<and> \<not> cannot_make_folder env options \<and>
    \<not> env_complete env \<longrightarrow>
      (\<exists>msg. fst (NewStandardWriter env options) = Panics msg))"
proof (intro conjI impI)
  assume a: "cannot_open env options (Output options) \<or>
      cannot_open env options (TraceLogFile options) \<or>
      cannot_open env options (ErrorLogFile options)"
  have fails: "\<exists>err. newFileOutputWriter env path (Resume options \<noteq> []) = Inl err"
    if "cannot_open env options path" for path
    using that
    by (cases "newFileOutputWriter env path (Resume options \<noteq> [])")
       (simp_all add: cannot_open_def)
  show "\<exists>msg path err.
         path \<in> {Output options, TraceLogFile options, ErrorLogFile options} \<and>
         newFileOutputWriter env path (Resume options \<noteq> []) = Inl err \<and>
         fst (NewStandardWriter env options) = Returns (None, Some (Wrapped msg err))"
  proof (cases "cannot_open env options (Output options)")
    case True
    then obtain err where
      e: "newFileOutputWriter env (Output options) (Resume options \<noteq> []) = Inl err"
      using fails by blast
    from True have "Output options \<noteq> []" by (simp add: cannot_open_def)
    from NewStandardWriter_output_fails [OF this e] e show ?thesis by blast
  next
    case o: False
    show ?thesis
    proof (cases "cannot_open env options (TraceLogFile options)")
      case True
      then obtain err where
        e: "newFileOutputWriter env (TraceLogFile options) (Resume options \<noteq> []) = Inl err"
        using fails by blast
      from True have "TraceLogFile options \<noteq> []" by (simp add: cannot_open_def)
      from NewStandardWriter_trace_fails [OF o this e] e show ?thesis by blast
    next
      case t: False
      with a o have c: "cannot_open env options (ErrorLogFile options)" by blast
      then obtain err where
        e: "newFileOutputWriter env (ErrorLogFile options) (Resume options \<noteq> []) = Inl err"
        using fails by blast
      from c have "ErrorLogFile options \<noteq> []" by (simp add: cannot_open_def)
      from NewStandardWriter_error_fails [OF o t this e] e show ?thesis by blast
    qed
  qed
next
  assume "\<not> cannot_open env options (Output options) \<and>
    \<not> cannot_open env options (TraceLogFile options) \<and>
    \<not> cannot_open env options (ErrorLogFile options) \<and> cannot_make_folder env options"
  then show "fst (NewStandardWriter env options) = Exits 1"
    using NewStandardWriter_folder_fails by blast
next
  assume "\<not> cannot_open env options (Output options) \<and>
    \<not> cannot_open env options (TraceLogFile options) \<and>
    \<not> cannot_open env options (ErrorLogFile options) \<and> \<not> cannot_make_folder env options \<and>
    \<not> env_complete env"
  then show "\<exists>msg. fst (NewStandardWriter env options) = Panics msg"
    using NewStandardWriter_env_missing by blast
qed

text \<open>Three worlds, one for each failure.\<close>

theorem NewStandardWriter_failures_witness:
  "cannot_open world_unconfigured options0 (Output options0) \<and>
   (\<exists>msg path err.
      path \<in> {Output options0, TraceLogFile options0, ErrorLogFile options0} \<and>
      newFileOutputWriter world_unconfigured path (Resume options0 \<noteq> []) = Inl err \<and>
      fst (NewStandardWriter world_unconfigured options0) =
        Returns (None, Some (Wrapped msg err))) \<and>
   cannot_make_folder world_read_only options_store \<and>
   fst (NewStandardWriter world_read_only options_store) = Exits 1 \<and>
   \<not> env_complete world_no_env \<and>
   (\<exists>msg. fst (NewStandardWriter world_no_env options0) = Panics msg)"
proof -
  have a: "cannot_open world_unconfigured options0 (Output options0)"
    by (simp add: cannot_open_def world_eval)
  have b: "\<not> cannot_open world_read_only options_store (Output options_store) \<and>
      \<not> cannot_open world_read_only options_store (TraceLogFile options_store) \<and>
      \<not> cannot_open world_read_only options_store (ErrorLogFile options_store) \<and>
      cannot_make_folder world_read_only options_store"
    by (simp add: cannot_open_def cannot_make_folder_def world_eval)
  have c: "\<not> cannot_open world_no_env options0 (Output options0) \<and>
      \<not> cannot_open world_no_env options0 (TraceLogFile options0) \<and>
      \<not> cannot_open world_no_env options0 (ErrorLogFile options0) \<and>
      \<not> cannot_make_folder world_no_env options0 \<and> \<not> env_complete world_no_env"
    by (simp add: cannot_open_def cannot_make_folder_def env_complete_def required_env_def
          world_eval)
  note a' = NewStandardWriter_failures [of world_unconfigured options0, THEN conjunct1, rule_format]
  note b' = NewStandardWriter_failures [of world_read_only options_store,
      THEN conjunct2, THEN conjunct1, rule_format, OF b]
  note c' = NewStandardWriter_failures [of world_no_env options0,
      THEN conjunct2, THEN conjunct2, rule_format, OF c]
  have a'': "\<exists>msg path err.
      path \<in> {Output options0, TraceLogFile options0, ErrorLogFile options0} \<and>
      newFileOutputWriter world_unconfigured path (Resume options0 \<noteq> []) = Inl err \<and>
      fst (NewStandardWriter world_unconfigured options0) =
        Returns (None, Some (Wrapped msg err))"
    using a by (intro a') simp
  from a a'' b b' c c' show ?thesis by simp
qed

text \<open>
  Claim C9 as stated fails: with no variable set, the process does not terminate when the
  output file cannot be opened; the constructor returns the wrapped error first.
\<close>

theorem NewStandardWriter_error_before_env:
  "LookupEnv world_unconfigured ''auditId'' = None \<and> \<not> env_complete world_unconfigured \<and>
   fst (NewStandardWriter world_unconfigured options0) =
     Returns (None, Some (Wrapped ''could not create output file'' (Err ''permission denied'')))"
proof -
  have "fst (NewStandardWriter world_unconfigured options0) =
     Returns (None, Some (Wrapped ''could not create output file'' (Err ''permission denied'')))"
    by (rule NewStandardWriter_output_fails) (simp_all add: world_eval)
  then show ?thesis
    by (simp add: env_complete_def required_env_def world_eval)
qed

end
